theory Spec2Isabelle
  imports Complex_Main
begin

section \<open>Numbers, faults and matrices\<close>

text \<open>
  The engine of \<^verbatim>\<open>implicit.hpp\<close> computes on \<^verbatim>\<open>double\<close> and on Armadillo's
  \<^verbatim>\<open>mat\<close>. A \<^verbatim>\<open>double\<close> is idealised here as a \<^typ>\<open>real\<close>: arithmetic is exact and
  nothing overflows. Where the C operation leaves the reals on finite arguments (a
  division by zero, a logarithm of a non-positive number, a \<^verbatim>\<open>pow\<close> outside its domain),
  the IEEE result is an infinity or a NaN, which then spreads through every later sum and
  product; the model returns \<open>Inl Non_finite\<close> for such a result. The exceptions thrown by
  the libraries are values of the same type: an empty \<^verbatim>\<open>boost::function\<close> that is called
  throws \<^verbatim>\<open>bad_function_call\<close>, Armadillo throws \<^verbatim>\<open>std::logic_error\<close> on incompatible
  sizes and on a checked index out of bounds. Where a property is decided by overflow or
  by NaN, as the range of the diagonal learning rate is, the function is embedded a second
  time on doubles that can be infinite or NaN.
\<close>

datatype error = Bad_function_call | Size_mismatch | Index_out_of_bounds | Non_finite

text \<open>
  An Armadillo matrix: its dimensions and its elements in column-major order, so that
  element \<open>(i, j)\<close> is \<open>mem ! (i + j * n_rows)\<close>.
\<close>

record mat =
  n_rows :: nat
  n_cols :: nat
  mem :: "real list"

definition n_elem :: "mat \<Rightarrow> nat" where
  "n_elem A = n_rows A * n_cols A"

definition wf_mat :: "mat \<Rightarrow> bool" where
  "wf_mat A \<longleftrightarrow> length (mem A) = n_rows A * n_cols A"

definition mat_gen :: "nat \<Rightarrow> nat \<Rightarrow> (nat \<Rightarrow> nat \<Rightarrow> real) \<Rightarrow> mat" where
  "mat_gen r c f = \<lparr>n_rows = r, n_cols = c, mem = map (\<lambda>k. f (k mod r) (k div r)) [0..<r * c]\<rparr>"

text \<open>\<^verbatim>\<open>mat()\<close>: the empty matrix.\<close>

definition mat_default :: mat where
  "mat_default = \<lparr>n_rows = 0, n_cols = 0, mem = []\<rparr>"

text \<open>\<^verbatim>\<open>A.at(i, j)\<close>, read and written: no bounds check.\<close>

definition mat_at :: "mat \<Rightarrow> nat \<Rightarrow> nat \<Rightarrow> real" where
  "mat_at A i j = mem A ! (i + j * n_rows A)"

definition set_at :: "mat \<Rightarrow> nat \<Rightarrow> nat \<Rightarrow> real \<Rightarrow> mat" where
  "set_at A i j v = A\<lparr>mem := (mem A)[i + j * n_rows A := v]\<rparr>"

text \<open>\<^verbatim>\<open>A(i)\<close>, read and written: the \<open>i\<close>-th element in column-major order, bounds checked.\<close>

definition elem :: "mat \<Rightarrow> nat \<Rightarrow> error + real" where
  "elem A i = (if i < n_elem A then Inr (mem A ! i) else Inl Index_out_of_bounds)"

definition set_elem :: "mat \<Rightarrow> nat \<Rightarrow> real \<Rightarrow> error + mat" where
  "set_elem A i v =
     (if i < n_elem A then Inr (A\<lparr>mem := (mem A)[i := v]\<rparr>) else Inl Index_out_of_bounds)"

text \<open>\<^verbatim>\<open>A.col(j)\<close>: column \<open>j\<close> as a matrix of one column, bounds checked.\<close>

definition col :: "mat \<Rightarrow> nat \<Rightarrow> error + mat" where
  "col A j =
     (if j < n_cols A
      then Inr \<lparr>n_rows = n_rows A, n_cols = 1,
                mem = take (n_rows A) (drop (j * n_rows A) (mem A))\<rparr>
      else Inl Index_out_of_bounds)"

text \<open>\<^verbatim>\<open>mat(r, c, fill::eye)\<close>.\<close>

definition eye :: "nat \<Rightarrow> nat \<Rightarrow> mat" where
  "eye r c = mat_gen r c (\<lambda>i j. if i = j then 1 else 0)"

text \<open>\<^verbatim>\<open>A * k\<close> and \<^verbatim>\<open>k * A\<close> for a scalar \<open>k\<close>.\<close>

definition mat_times_scalar :: "mat \<Rightarrow> real \<Rightarrow> mat" where
  "mat_times_scalar A k = A\<lparr>mem := map (\<lambda>v. v * k) (mem A)\<rparr>"

definition scalar_times_mat :: "real \<Rightarrow> mat \<Rightarrow> mat" where
  "scalar_times_mat k A = A\<lparr>mem := map (\<lambda>v. k * v) (mem A)\<rparr>"

text \<open>\<^verbatim>\<open>A + B\<close>, \<^verbatim>\<open>A - B\<close> and the element-wise product \<^verbatim>\<open>A % B\<close>: the sizes must agree.\<close>

definition same_size :: "mat \<Rightarrow> mat \<Rightarrow> bool" where
  "same_size A B \<longleftrightarrow> n_rows A = n_rows B \<and> n_cols A = n_cols B"

definition mat_plus :: "mat \<Rightarrow> mat \<Rightarrow> error + mat" where
  "mat_plus A B =
     (if same_size A B then Inr (A\<lparr>mem := map2 (+) (mem A) (mem B)\<rparr>) else Inl Size_mismatch)"

definition mat_minus :: "mat \<Rightarrow> mat \<Rightarrow> error + mat" where
  "mat_minus A B =
     (if same_size A B then Inr (A\<lparr>mem := map2 (-) (mem A) (mem B)\<rparr>) else Inl Size_mismatch)"

definition schur :: "mat \<Rightarrow> mat \<Rightarrow> error + mat" where
  "schur A B =
     (if same_size A B then Inr (A\<lparr>mem := map2 (*) (mem A) (mem B)\<rparr>) else Inl Size_mismatch)"

text \<open>The matrix product \<^verbatim>\<open>A * B\<close> and the transpose \<^verbatim>\<open>A.t()\<close>.\<close>

definition mat_times :: "mat \<Rightarrow> mat \<Rightarrow> error + mat" where
  "mat_times A B =
     (if n_cols A = n_rows B
      then Inr (mat_gen (n_rows A) (n_cols B)
                  (\<lambda>i j. \<Sum>k\<leftarrow>[0..<n_cols A]. mat_at A i k * mat_at B k j))
      else Inl Size_mismatch)"

definition trans_mat :: "mat \<Rightarrow> mat" where
  "trans_mat A = mat_gen (n_cols A) (n_rows A) (\<lambda>i j. mat_at A j i)"

text \<open>
  \<^verbatim>\<open>diagmat(A)\<close>: a vector becomes the diagonal of a square matrix, any other matrix keeps
  its diagonal and loses the rest.
\<close>

definition diagmat :: "mat \<Rightarrow> mat" where
  "diagmat A =
     (if n_rows A = 1 \<or> n_cols A = 1
      then mat_gen (n_elem A) (n_elem A) (\<lambda>i j. if i = j then mem A ! i else 0)
      else mat_gen (n_rows A) (n_cols A) (\<lambda>i j. if i = j then mat_at A i j else 0))"

text \<open>\<^verbatim>\<open>as_scalar(A)\<close>: the only element of a matrix of one element.\<close>

definition as_scalar :: "mat \<Rightarrow> error + real" where
  "as_scalar A = (if n_elem A = 1 then Inr (mem A ! 0) else Inl Size_mismatch)"

text \<open>\<^verbatim>\<open>dot(A, B)\<close>: both arguments read as vectors of the same number of elements.\<close>

definition dot :: "mat \<Rightarrow> mat \<Rightarrow> error + real" where
  "dot A B =
     (if n_elem A = n_elem B then Inr (\<Sum>(a, b)\<leftarrow>zip (mem A) (mem B). a * b)
      else Inl Size_mismatch)"

text \<open>
  \<^verbatim>\<open>vec(A)\<close>: a column vector takes a matrix of one column (the empty matrix becomes the
  empty column); \<^verbatim>\<open>vec r(n)\<close> allocates \<open>n\<close> elements; \<^verbatim>\<open>sum(v)\<close> adds the elements up.
\<close>

definition to_vec :: "mat \<Rightarrow> error + mat" where
  "to_vec A =
     (if n_cols A = 1 then Inr A
      else if n_rows A = 0 \<and> n_cols A = 0 then Inr \<lparr>n_rows = 0, n_cols = 1, mem = []\<rparr>
      else Inl Size_mismatch)"

definition new_vec :: "nat \<Rightarrow> mat" where
  "new_vec n = \<lparr>n_rows = n, n_cols = 1, mem = replicate n 0\<rparr>"

definition sum_vec :: "mat \<Rightarrow> real" where
  "sum_vec v = sum_list (mem v)"

text \<open>
  \<^verbatim>\<open>for (unsigned i = i0; i < n; ++i) body\<close> over a state \<open>s\<close>, with a bound \<open>n\<close> that the
  body does not change; an exception thrown by the body leaves the loop.
\<close>

function for_loop :: "nat \<Rightarrow> nat \<Rightarrow> (nat \<Rightarrow> 's \<Rightarrow> error + 's) \<Rightarrow> 's \<Rightarrow> error + 's" where
  "for_loop i n body s =
     (if i < n
      then (case body i s of Inl e \<Rightarrow> Inl e | Inr s' \<Rightarrow> for_loop (i + 1) n body s')
      else Inr s)"
  by pat_completeness auto
termination
  by (relation "measure (\<lambda>(i, n, body, s). n - i)") auto

text \<open>
  The C library on the reals: \<^verbatim>\<open>pow(x, y)\<close> has a finite value for a positive base, for
  base zero with a non-negative exponent, and for a negative base with an integral
  exponent; \<^verbatim>\<open>log(a / b)\<close> has one when \<open>b\<close> is not zero and the quotient is positive,
  and is \<open>None\<close> otherwise.
\<close>

definition pow_finite :: "real \<Rightarrow> real \<Rightarrow> bool" where
  "pow_finite b e \<longleftrightarrow> 0 < b \<or> (b = 0 \<and> 0 \<le> e) \<or> (b < 0 \<and> e = of_int \<lfloor>e\<rfloor>)"

definition pow :: "real \<Rightarrow> real \<Rightarrow> real" where
  "pow b e =
     (if 0 < b then b powr e
      else if b = 0 then (if e = 0 then 1 else 0)
      else b powi \<lfloor>e\<rfloor>)"

definition log_quot :: "real \<Rightarrow> real \<Rightarrow> real option" where
  "log_quot a b = (if b = 0 \<or> a / b \<le> 0 then None else Some (ln (a / b)))"

section \<open>Observations and the output trajectory\<close>

text \<open>\<^verbatim>\<open>struct Imp_DataPoint\<close>: the members \<^verbatim>\<open>x\<close> and \<^verbatim>\<open>y\<close>.\<close>

record Imp_DataPoint =
  data_x :: mat
  data_y :: real

text \<open>
  \<^verbatim>\<open>struct Imp_OnlineOutput\<close> and its default constructor, which leaves \<^verbatim>\<open>estimates\<close>
  the empty matrix.
\<close>

record Imp_OnlineOutput =
  estimates :: mat

definition Imp_OnlineOutput :: Imp_OnlineOutput where
  "Imp_OnlineOutput = \<lparr>estimates = mat_default\<rparr>"

text \<open>
  \<^verbatim>\<open>estimates.col(estimates.n_cols-1)\<close>: \<^verbatim>\<open>n_cols\<close> is an unsigned \<^verbatim>\<open>uword\<close> of \<open>w\<close> bits
  (32 or 64, by Armadillo's configuration), so the subtraction is taken modulo \<open>2 ^ w\<close>.
\<close>

definition uword_minus :: "nat \<Rightarrow> nat \<Rightarrow> nat \<Rightarrow> nat" where
  "uword_minus w a b = (a mod 2 ^ w + (2 ^ w - b mod 2 ^ w)) mod 2 ^ w"

definition last_estimate :: "nat \<Rightarrow> Imp_OnlineOutput \<Rightarrow> error + mat" where
  "last_estimate w out = col (estimates out) (uword_minus w (n_cols (estimates out)) 1)"

section \<open>Transfer functions\<close>

text \<open>
  The scalar forms of the three transfer functions and their derivatives, which are what
  the experiment binds. \<^verbatim>\<open>Imp_Identity_Transfer::link\<close> has an empty body and no caller.
\<close>

definition Imp_Identity_Transfer_transfer :: "real \<Rightarrow> real" where
  "Imp_Identity_Transfer_transfer u = u"

definition Imp_Identity_Transfer_first_derivative :: "real \<Rightarrow> real" where
  "Imp_Identity_Transfer_first_derivative u = 1"

definition Imp_Identity_Transfer_second_derivative :: "real \<Rightarrow> real" where
  "Imp_Identity_Transfer_second_derivative u = 0"

definition Imp_Exp_Transfer_transfer :: "real \<Rightarrow> real" where
  "Imp_Exp_Transfer_transfer u = exp u"

definition Imp_Exp_Transfer_first_derivative :: "real \<Rightarrow> real" where
  "Imp_Exp_Transfer_first_derivative u = exp u"

definition Imp_Exp_Transfer_second_derivative :: "real \<Rightarrow> real" where
  "Imp_Exp_Transfer_second_derivative u = exp u"

definition sigmoid :: "real \<Rightarrow> real" where
  "sigmoid u = 1 / (1 + exp (- u))"

definition Imp_Logistic_Transfer_transfer :: "real \<Rightarrow> real" where
  "Imp_Logistic_Transfer_transfer u = sigmoid u"

definition Imp_Logistic_Transfer_first_derivative :: "real \<Rightarrow> real" where
  "Imp_Logistic_Transfer_first_derivative u = (let sig = sigmoid u in sig * (1 - sig))"

definition Imp_Logistic_Transfer_second_derivative :: "real \<Rightarrow> real" where
  "Imp_Logistic_Transfer_second_derivative u =
     (let sig = sigmoid u in 2 * pow sig 3 - 3 * pow sig 2 + 2 * sig)"

section \<open>Learning-rate schedules\<close>

text \<open>
  \<^verbatim>\<open>Imp_Unidim_Learn_Rate::learning_rate\<close>. The counters \<^verbatim>\<open>t\<close> and \<^verbatim>\<open>p\<close> are unsigned
  and never decremented, so they are natural numbers; \<^verbatim>\<open>t\<close> is converted to \<^verbatim>\<open>double\<close> in
  the product. When \<^verbatim>\<open>pow\<close> has no finite value, \<^verbatim>\<open>lr\<close> and every entry of the product
  with the identity matrix are infinite or NaN.
\<close>

definition Imp_Unidim_Learn_Rate_learning_rate ::
  "mat \<Rightarrow> Imp_DataPoint \<Rightarrow> nat \<Rightarrow> nat \<Rightarrow> real \<Rightarrow> real \<Rightarrow> real \<Rightarrow> real \<Rightarrow> error + mat" where
  "Imp_Unidim_Learn_Rate_learning_rate theta_old data_pt t p gamma alpha c scale =
     (if pow_finite (1 + alpha * gamma * real t) (- c)
      then (let lr = scale * gamma * pow (1 + alpha * gamma * real t) (- c);
                lr_mat = mat_times_scalar (eye p p) lr
            in Inr lr_mat)
      else Inl Non_finite)"

text \<open>
  \<^verbatim>\<open>Imp_Pxdim_Learn_Rate::learning_rate\<close>. The score function is a function object that
  may throw. The threshold \<^verbatim>\<open>1e-8\<close> is \<open>1 / 10 ^ 8\<close>, and \<^verbatim>\<open>abs\<close> is the absolute value
  of a \<^verbatim>\<open>double\<close>. The loop reads and writes the diagonal with the unchecked \<^verbatim>\<open>at\<close>; the
  matrix has \<open>p\<close> rows and columns by then, since the sum before the loop would have
  thrown otherwise. This is the schedule on the reals; what it does when the square of the
  score overflows or the score is NaN is the subject of the second embedding below.
\<close>

definition Imp_Pxdim_Learn_Rate_learning_rate ::
  "mat \<Rightarrow> Imp_DataPoint \<Rightarrow> nat \<Rightarrow> nat \<Rightarrow> (mat \<Rightarrow> Imp_DataPoint \<Rightarrow> error + mat) \<Rightarrow> error + mat" where
  "Imp_Pxdim_Learn_Rate_learning_rate theta_old data_pt t p score_func =
     (let Idiag = eye p p in
      case score_func theta_old data_pt of
        Inl err \<Rightarrow> Inl err
      | Inr Gi \<Rightarrow>
         (case mat_times Gi (trans_mat Gi) of
            Inl err \<Rightarrow> Inl err
          | Inr GGt \<Rightarrow>
             (case mat_plus Idiag (diagmat GGt) of
                Inl err \<Rightarrow> Inl err
              | Inr Idiag \<Rightarrow>
                 for_loop 0 p
                   (\<lambda>i Idiag.
                      Inr (if \<bar>mat_at Idiag i i\<bar> > 1 / 10 ^ 8
                           then set_at Idiag i i (1 / mat_at Idiag i i)
                           else Idiag))
                   Idiag)))"

section \<open>Model families\<close>

definition Imp_Gaussian_variance :: "real \<Rightarrow> real" where
  "Imp_Gaussian_variance u = 1"

text \<open>\<^verbatim>\<open>sum(vec(wt % ((y-mu) % (y-mu))))\<close>\<close>

definition Imp_Gaussian_deviance :: "mat \<Rightarrow> mat \<Rightarrow> mat \<Rightarrow> error + real" where
  "Imp_Gaussian_deviance y mu wt =
     (case mat_minus y mu of
        Inl err \<Rightarrow> Inl err
      | Inr d \<Rightarrow>
         (case schur d d of
            Inl err \<Rightarrow> Inl err
          | Inr dd \<Rightarrow>
             (case schur wt dd of
                Inl err \<Rightarrow> Inl err
              | Inr wdd \<Rightarrow>
                 (case to_vec wdd of
                    Inl err \<Rightarrow> Inl err
                  | Inr v \<Rightarrow> Inr (sum_vec v)))))"

definition Imp_Poisson_variance :: "real \<Rightarrow> real" where
  "Imp_Poisson_variance u = u"

text \<open>
  \<^verbatim>\<open>Imp_Poisson::deviance\<close>: \<^verbatim>\<open>r\<close> starts as \<^verbatim>\<open>mu % wt\<close>, and the loop overwrites the
  elements where \<^verbatim>\<open>y(i) > 0\<close>. An element that is infinite or NaN does not stop the
  loop (a later index out of bounds still throws), and it makes the sum infinite or NaN:
  the loop carries, beside \<^verbatim>\<open>r\<close>, whether every element written so far is finite.
\<close>

definition Imp_Poisson_deviance :: "mat \<Rightarrow> mat \<Rightarrow> mat \<Rightarrow> error + real" where
  "Imp_Poisson_deviance y mu wt =
     (case schur mu wt of
        Inl err \<Rightarrow> Inl err
      | Inr mw \<Rightarrow>
         (case to_vec mw of
            Inl err \<Rightarrow> Inl err
          | Inr r0 \<Rightarrow>
             (case for_loop 0 (n_elem r0)
                     (\<lambda>i (r, fin).
                        case elem y i of
                          Inl err \<Rightarrow> Inl err
                        | Inr yi \<Rightarrow>
                           if yi > 0
                           then (case elem wt i of
                                   Inl err \<Rightarrow> Inl err
                                 | Inr wi \<Rightarrow>
                                    (case elem mu i of
                                       Inl err \<Rightarrow> Inl err
                                     | Inr mi \<Rightarrow>
                                        (case log_quot yi mi of
                                           None \<Rightarrow> Inr (r, False)
                                         | Some l \<Rightarrow>
                                            (case set_elem r i (wi * (yi * l - (yi - mi))) of
                                               Inl err \<Rightarrow> Inl err
                                             | Inr r' \<Rightarrow> Inr (r', fin)))))
                           else Inr (r, fin))
                     (r0, True) of
                Inl err \<Rightarrow> Inl err
              | Inr (r, fin) \<Rightarrow>
                 if fin then Inr (sum_vec (scalar_times_mat 2 r)) else Inl Non_finite)))"

definition Imp_Binomial_variance :: "real \<Rightarrow> real" where
  "Imp_Binomial_variance u = u * (1 - u)"

text \<open>\<^verbatim>\<open>(y) ? (y * log(y/mu)) : 0.\<close>\<close>

definition y_log_y :: "real \<Rightarrow> real \<Rightarrow> real option" where
  "y_log_y y mu =
     (if y \<noteq> 0
      then (case log_quot y mu of None \<Rightarrow> None | Some l \<Rightarrow> Some (y * l))
      else Some 0)"

text \<open>
  \<^verbatim>\<open>Imp_Binomial::deviance\<close>: every element of \<^verbatim>\<open>r\<close> is written before \<^verbatim>\<open>sum\<close> reads
  it, so what the fresh vector holds does not matter. The loop carries the same finiteness
  mark as the Poisson one.
\<close>

definition Imp_Binomial_deviance :: "mat \<Rightarrow> mat \<Rightarrow> mat \<Rightarrow> error + real" where
  "Imp_Binomial_deviance y mu wt =
     (let r0 = new_vec (n_elem y) in
      case for_loop 0 (n_elem r0)
             (\<lambda>i (r, fin).
                case elem wt i of
                  Inl err \<Rightarrow> Inl err
                | Inr wi \<Rightarrow>
                   (case elem y i of
                      Inl err \<Rightarrow> Inl err
                    | Inr yi \<Rightarrow>
                       (case elem mu i of
                          Inl err \<Rightarrow> Inl err
                        | Inr mi \<Rightarrow>
                           (case y_log_y yi mi of
                              None \<Rightarrow> Inr (r, False)
                            | Some a \<Rightarrow>
                               (case y_log_y (1 - yi) (1 - mi) of
                                  None \<Rightarrow> Inr (r, False)
                                | Some b \<Rightarrow>
                                   (case set_elem r i (2 * wi * (a + b)) of
                                      Inl err \<Rightarrow> Inl err
                                    | Inr r' \<Rightarrow> Inr (r', fin)))))))
             (r0, True) of
        Inl err \<Rightarrow> Inl err
      | Inr (r, fin) \<Rightarrow> if fin then Inr (sum_vec r) else Inl Non_finite)"

section \<open>The experiment\<close>

text \<open>
  \<^verbatim>\<open>struct Imp_Experiment\<close>. The four \<^verbatim>\<open>boost::function\<close> members (\<^verbatim>\<open>transfer_\<close> is \<open>transfer_fn\<close>, and so on) are optional functions:
  \<open>None\<close> is the empty function object. The member \<^verbatim>\<open>p\<close> is \<open>dim_p\<close> here.
\<close>

record Imp_Experiment =
  dim_p :: nat
  n_iters :: nat
  model_name :: string
  transfer_fn :: "(real \<Rightarrow> real) option"
  transfer_first_deriv_fn :: "(real \<Rightarrow> real) option"
  transfer_second_deriv_fn :: "(real \<Rightarrow> real) option"
  lr_fn :: "(mat \<Rightarrow> Imp_DataPoint \<Rightarrow> nat \<Rightarrow> nat \<Rightarrow> error + mat) option"

text \<open>
  The constructor. It leaves \<^verbatim>\<open>p\<close> and \<^verbatim>\<open>n_iters\<close> uninitialised: \<open>p0\<close> and \<open>n0\<close> stand
  for whatever they hold until the host assigns them. The string and the function
  objects are default-constructed (empty) before the body runs.
\<close>

definition Imp_Experiment :: "string \<Rightarrow> nat \<Rightarrow> nat \<Rightarrow> Imp_Experiment" where
  "Imp_Experiment transfer_name p0 n0 =
     (let e = \<lparr>dim_p = p0, n_iters = n0, model_name = '''',
                transfer_fn = None, transfer_first_deriv_fn = None,
                transfer_second_deriv_fn = None, lr_fn = None\<rparr>
      in if transfer_name = ''identity''
         then e\<lparr>transfer_fn := Some Imp_Identity_Transfer_transfer,
                transfer_first_deriv_fn := Some Imp_Identity_Transfer_first_derivative,
                transfer_second_deriv_fn := Some Imp_Identity_Transfer_second_derivative\<rparr>
         else if transfer_name = ''exp''
         then e\<lparr>transfer_fn := Some Imp_Exp_Transfer_transfer,
                transfer_first_deriv_fn := Some Imp_Exp_Transfer_first_derivative,
                transfer_second_deriv_fn := Some Imp_Exp_Transfer_second_derivative\<rparr>
         else if transfer_name = ''logistic''
         then e\<lparr>transfer_fn := Some Imp_Logistic_Transfer_transfer,
                transfer_first_deriv_fn := Some Imp_Logistic_Transfer_first_derivative,
                transfer_second_deriv_fn := Some Imp_Logistic_Transfer_second_derivative\<rparr>
         else e)"

text \<open>Calling a \<^verbatim>\<open>boost::function\<close> of one argument.\<close>

definition call_uni :: "(real \<Rightarrow> real) option \<Rightarrow> real \<Rightarrow> error + real" where
  "call_uni f u = (case f of None \<Rightarrow> Inl Bad_function_call | Some h \<Rightarrow> Inr (h u))"

definition h_transfer :: "Imp_Experiment \<Rightarrow> real \<Rightarrow> error + real" where
  "h_transfer e u = call_uni (transfer_fn e) u"

definition h_first_derivative :: "Imp_Experiment \<Rightarrow> real \<Rightarrow> error + real" where
  "h_first_derivative e u = call_uni (transfer_first_deriv_fn e) u"

definition h_second_derivative :: "Imp_Experiment \<Rightarrow> real \<Rightarrow> error + real" where
  "h_second_derivative e u = call_uni (transfer_second_deriv_fn e) u"

text \<open>
  \<^verbatim>\<open>((datapoint.y - h_transfer(as_scalar(datapoint.x * theta_old)))*datapoint.x).t()\<close>
\<close>

definition score_function :: "Imp_Experiment \<Rightarrow> mat \<Rightarrow> Imp_DataPoint \<Rightarrow> error + mat" where
  "score_function e theta_old datapoint =
     (case mat_times (data_x datapoint) theta_old of
        Inl err \<Rightarrow> Inl err
      | Inr xt \<Rightarrow>
         (case as_scalar xt of
            Inl err \<Rightarrow> Inl err
          | Inr u \<Rightarrow>
             (case h_transfer e u of
                Inl err \<Rightarrow> Inl err
              | Inr h \<Rightarrow>
                 Inr (trans_mat (scalar_times_mat (data_y datapoint - h) (data_x datapoint))))))"

text \<open>
  The two initialisers bind \<^verbatim>\<open>lr_\<close>; the diagonal schedule closes over the experiment's
  own score function, which reads nothing but the transfer binding.
\<close>

definition init_uni_dim_learning_rate ::
  "Imp_Experiment \<Rightarrow> real \<Rightarrow> real \<Rightarrow> real \<Rightarrow> real \<Rightarrow> Imp_Experiment" where
  "init_uni_dim_learning_rate e gamma alpha c scale =
     e\<lparr>lr_fn := Some (\<lambda>theta_old data_pt t p.
          Imp_Unidim_Learn_Rate_learning_rate theta_old data_pt t p gamma alpha c scale)\<rparr>"

definition init_px_dim_learning_rate :: "Imp_Experiment \<Rightarrow> Imp_Experiment" where
  "init_px_dim_learning_rate e =
     (let score_func = score_function e in
      e\<lparr>lr_fn := Some (\<lambda>theta_old data_pt t p.
           Imp_Pxdim_Learn_Rate_learning_rate theta_old data_pt t p score_func)\<rparr>)"

definition learning_rate :: "Imp_Experiment \<Rightarrow> mat \<Rightarrow> Imp_DataPoint \<Rightarrow> nat \<Rightarrow> error + mat" where
  "learning_rate e theta_old data_pt t =
     (case lr_fn e of
        None \<Rightarrow> Inl Bad_function_call
      | Some f \<Rightarrow> f theta_old data_pt t (dim_p e))"

section \<open>The diagonal schedule on doubles with overflow and NaN\<close>

text \<open>
  A range or a reachability property of the diagonal schedule is decided by what a
  \<^verbatim>\<open>double\<close> does beyond the reals: a product that exceeds the largest double is
  \<open>+inf\<close>, and \<open>1. / inf\<close> is zero; a NaN compares false with everything. The schedule
  is therefore embedded a second time, on doubles that are a real number within the
  range of the format, an infinity, or NaN. Rounding is still left out (a finite result
  is the exact real, and a result is infinite when it lies beyond \<^verbatim>\<open>DBL_MAX\<close>), and so is
  the sign of zero.
\<close>

datatype dbl = Fin real | PInf | NInf | NaN

definition DBL_MAX :: real where
  "DBL_MAX = (2 ^ 53 - 1) * 2 ^ 971"

definition to_dbl :: "real \<Rightarrow> dbl" where
  "to_dbl r = (if r > DBL_MAX then PInf else if r < - DBL_MAX then NInf else Fin r)"

fun dbl_plus :: "dbl \<Rightarrow> dbl \<Rightarrow> dbl" where
  "dbl_plus NaN b = NaN"
| "dbl_plus a NaN = NaN"
| "dbl_plus (Fin a) (Fin b) = to_dbl (a + b)"
| "dbl_plus PInf NInf = NaN"
| "dbl_plus NInf PInf = NaN"
| "dbl_plus PInf b = PInf"
| "dbl_plus a PInf = PInf"
| "dbl_plus NInf b = NInf"
| "dbl_plus a NInf = NInf"

fun dbl_times :: "dbl \<Rightarrow> dbl \<Rightarrow> dbl" where
  "dbl_times NaN b = NaN"
| "dbl_times a NaN = NaN"
| "dbl_times (Fin a) (Fin b) = to_dbl (a * b)"
| "dbl_times (Fin a) PInf = (if a = 0 then NaN else if 0 < a then PInf else NInf)"
| "dbl_times (Fin a) NInf = (if a = 0 then NaN else if 0 < a then NInf else PInf)"
| "dbl_times PInf (Fin b) = (if b = 0 then NaN else if 0 < b then PInf else NInf)"
| "dbl_times NInf (Fin b) = (if b = 0 then NaN else if 0 < b then NInf else PInf)"
| "dbl_times PInf PInf = PInf"
| "dbl_times NInf NInf = PInf"
| "dbl_times PInf NInf = NInf"
| "dbl_times NInf PInf = NInf"

fun dbl_divide :: "dbl \<Rightarrow> dbl \<Rightarrow> dbl" where
  "dbl_divide NaN b = NaN"
| "dbl_divide a NaN = NaN"
| "dbl_divide (Fin a) (Fin b) =
     (if b = 0 then (if a = 0 then NaN else if 0 < a then PInf else NInf)
      else to_dbl (a / b))"
| "dbl_divide (Fin a) PInf = Fin 0"
| "dbl_divide (Fin a) NInf = Fin 0"
| "dbl_divide PInf (Fin b) = (if b < 0 then NInf else PInf)"
| "dbl_divide NInf (Fin b) = (if b < 0 then PInf else NInf)"
| "dbl_divide a b = NaN"

fun dbl_abs :: "dbl \<Rightarrow> dbl" where
  "dbl_abs (Fin a) = Fin \<bar>a\<bar>"
| "dbl_abs PInf = PInf"
| "dbl_abs NInf = PInf"
| "dbl_abs NaN = NaN"

text \<open>\<^verbatim>\<open>a > b\<close>\<close>

fun dbl_greater :: "dbl \<Rightarrow> dbl \<Rightarrow> bool" where
  "dbl_greater NaN b = False"
| "dbl_greater a NaN = False"
| "dbl_greater (Fin a) (Fin b) = (a > b)"
| "dbl_greater PInf PInf = False"
| "dbl_greater PInf b = True"
| "dbl_greater a NInf = (a \<noteq> NInf)"
| "dbl_greater a b = False"

text \<open>Matrices of such doubles, with the operations that the schedule uses.\<close>

record dmat =
  d_rows :: nat
  d_cols :: nat
  d_mem :: "dbl list"

definition dmat_gen :: "nat \<Rightarrow> nat \<Rightarrow> (nat \<Rightarrow> nat \<Rightarrow> dbl) \<Rightarrow> dmat" where
  "dmat_gen r c f = \<lparr>d_rows = r, d_cols = c, d_mem = map (\<lambda>k. f (k mod r) (k div r)) [0..<r * c]\<rparr>"

definition wf_dmat :: "dmat \<Rightarrow> bool" where
  "wf_dmat A \<longleftrightarrow> length (d_mem A) = d_rows A * d_cols A"

definition dmat_at :: "dmat \<Rightarrow> nat \<Rightarrow> nat \<Rightarrow> dbl" where
  "dmat_at A i j = d_mem A ! (i + j * d_rows A)"

definition dset_at :: "dmat \<Rightarrow> nat \<Rightarrow> nat \<Rightarrow> dbl \<Rightarrow> dmat" where
  "dset_at A i j v = A\<lparr>d_mem := (d_mem A)[i + j * d_rows A := v]\<rparr>"

definition deye :: "nat \<Rightarrow> nat \<Rightarrow> dmat" where
  "deye r c = dmat_gen r c (\<lambda>i j. if i = j then Fin 1 else Fin 0)"

definition dmat_plus :: "dmat \<Rightarrow> dmat \<Rightarrow> error + dmat" where
  "dmat_plus A B =
     (if d_rows A = d_rows B \<and> d_cols A = d_cols B
      then Inr (A\<lparr>d_mem := map2 dbl_plus (d_mem A) (d_mem B)\<rparr>)
      else Inl Size_mismatch)"

text \<open>The products of a row with a column are added up from the left.\<close>

definition dmat_times :: "dmat \<Rightarrow> dmat \<Rightarrow> error + dmat" where
  "dmat_times A B =
     (if d_cols A = d_rows B
      then Inr (dmat_gen (d_rows A) (d_cols B)
                  (\<lambda>i j. foldl dbl_plus (Fin 0)
                            (map (\<lambda>k. dbl_times (dmat_at A i k) (dmat_at B k j)) [0..<d_cols A])))
      else Inl Size_mismatch)"

definition dtrans_mat :: "dmat \<Rightarrow> dmat" where
  "dtrans_mat A = dmat_gen (d_cols A) (d_rows A) (\<lambda>i j. dmat_at A j i)"

definition ddiagmat :: "dmat \<Rightarrow> dmat" where
  "ddiagmat A =
     (if d_rows A = 1 \<or> d_cols A = 1
      then dmat_gen (d_rows A * d_cols A) (d_rows A * d_cols A)
             (\<lambda>i j. if i = j then d_mem A ! i else Fin 0)
      else dmat_gen (d_rows A) (d_cols A) (\<lambda>i j. if i = j then dmat_at A i j else Fin 0))"

text \<open>
  \<^verbatim>\<open>Imp_Pxdim_Learn_Rate::learning_rate\<close> on these doubles. The parameter vector and the data
  point are only handed to the score function.
\<close>

definition Imp_Pxdim_Learn_Rate_learning_rate_dbl ::
  "'a \<Rightarrow> 'b \<Rightarrow> nat \<Rightarrow> nat \<Rightarrow> ('a \<Rightarrow> 'b \<Rightarrow> error + dmat) \<Rightarrow> error + dmat" where
  "Imp_Pxdim_Learn_Rate_learning_rate_dbl theta_old data_pt t p score_func =
     (let Idiag = deye p p in
      case score_func theta_old data_pt of
        Inl err \<Rightarrow> Inl err
      | Inr Gi \<Rightarrow>
         (case dmat_times Gi (dtrans_mat Gi) of
            Inl err \<Rightarrow> Inl err
          | Inr GGt \<Rightarrow>
             (case dmat_plus Idiag (ddiagmat GGt) of
                Inl err \<Rightarrow> Inl err
              | Inr Idiag \<Rightarrow>
                 for_loop 0 p
                   (\<lambda>i Idiag.
                      Inr (if dbl_greater (dbl_abs (dmat_at Idiag i i)) (Fin (1 / 10 ^ 8))
                           then dset_at Idiag i i (dbl_divide (Fin 1) (dmat_at Idiag i i))
                           else Idiag))
                   Idiag)))"

text \<open>
  A score computed by the experiment where every intermediate value lies within the range
  of the format, read as a matrix of doubles.
\<close>

definition to_dmat :: "mat \<Rightarrow> dmat" where
  "to_dmat A = \<lparr>d_rows = n_rows A, d_cols = n_cols A, d_mem = map to_dbl (mem A)\<rparr>"

definition score_function_dbl :: "Imp_Experiment \<Rightarrow> mat \<Rightarrow> Imp_DataPoint \<Rightarrow> error + dmat" where
  "score_function_dbl e theta_old datapoint =
     (case score_function e theta_old datapoint of Inl err \<Rightarrow> Inl err | Inr G \<Rightarrow> Inr (to_dmat G))"

section \<open>The implicit update\<close>

text \<open>\<^verbatim>\<open>struct Get_score_coeff\<close>: the references are held by value.\<close>

record Get_score_coeff =
  "experiment" :: Imp_Experiment
  datapoint :: Imp_DataPoint
  theta_old :: mat
  normx :: real

text \<open>The call operator and the two derivatives.\<close>

definition Get_score_coeff_call :: "Get_score_coeff \<Rightarrow> real \<Rightarrow> error + real" where
  "Get_score_coeff_call gs ksi =
     (case dot (theta_old gs) (data_x (datapoint gs)) of
        Inl err \<Rightarrow> Inl err
      | Inr d \<Rightarrow>
         (case h_transfer (experiment gs) (d + normx gs * ksi) of
            Inl err \<Rightarrow> Inl err
          | Inr h \<Rightarrow> Inr (data_y (datapoint gs) - h)))"

definition Get_score_coeff_first_derivative :: "Get_score_coeff \<Rightarrow> real \<Rightarrow> error + real" where
  "Get_score_coeff_first_derivative gs ksi =
     (case dot (theta_old gs) (data_x (datapoint gs)) of
        Inl err \<Rightarrow> Inl err
      | Inr d \<Rightarrow>
         (case h_first_derivative (experiment gs) (d + normx gs * ksi) of
            Inl err \<Rightarrow> Inl err
          | Inr h1 \<Rightarrow> Inr (h1 * normx gs)))"

definition Get_score_coeff_second_derivative :: "Get_score_coeff \<Rightarrow> real \<Rightarrow> error + real" where
  "Get_score_coeff_second_derivative gs ksi =
     (case dot (theta_old gs) (data_x (datapoint gs)) of
        Inl err \<Rightarrow> Inl err
      | Inr d \<Rightarrow>
         (case h_second_derivative (experiment gs) (d + normx gs * ksi) of
            Inl err \<Rightarrow> Inl err
          | Inr h2 \<Rightarrow> Inr (h2 * normx gs * normx gs)))"

text \<open>
  \<^verbatim>\<open>struct Implicit_fn\<close>: the members \<^verbatim>\<open>at\<close> and \<^verbatim>\<open>g\<close>, and the call operator, which
  returns the tuple (value, first, second).
\<close>

record Implicit_fn =
  at_rate :: real
  g_coeff :: Get_score_coeff

definition Implicit_fn_call :: "Implicit_fn \<Rightarrow> real \<Rightarrow> error + real \<times> real \<times> real" where
  "Implicit_fn_call fn u =
     (case Get_score_coeff_call (g_coeff fn) u of
        Inl err \<Rightarrow> Inl err
      | Inr gu \<Rightarrow>
         (let val = u - at_rate fn * gu in
          case Get_score_coeff_first_derivative (g_coeff fn) u of
            Inl err \<Rightarrow> Inl err
          | Inr g1 \<Rightarrow>
             (let first = 1 + at_rate fn * g1 in
              case Get_score_coeff_second_derivative (g_coeff fn) u of
                Inl err \<Rightarrow> Inl err
              | Inr g2 \<Rightarrow>
                 (let second = at_rate fn * g2 in Inr (val, first, second)))))"

section \<open>Vectors for concrete inputs, and the norm of the specification\<close>

text \<open>A row vector and a column vector with the given elements.\<close>

definition row_vec :: "real list \<Rightarrow> mat" where
  "row_vec xs = \<lparr>n_rows = 1, n_cols = length xs, mem = xs\<rparr>"

definition col_vec :: "real list \<Rightarrow> mat" where
  "col_vec xs = \<lparr>n_rows = length xs, n_cols = 1, mem = xs\<rparr>"

text \<open>
  The Euclidean norm \<open>\<parallel>x\<parallel>\<close> that the specification writes. The source never computes
  it: \<^verbatim>\<open>Get_score_coeff\<close> multiplies \<open>\<xi>\<close> with the number \<^verbatim>\<open>normx\<close> that its constructor
  was given.
\<close>

definition spec_norm :: "mat \<Rightarrow> real" where
  "spec_norm A = sqrt (\<Sum>v\<leftarrow>mem A. v\<^sup>2)"

text \<open>
  The Poisson deviance as the specification writes it: the sum over the observations of
  \<open>2 * w * (y * log (y / \<mu>) - (y - \<mu>))\<close>, with the term \<open>y * log (y / \<mu>)\<close> taken to be
  zero when \<open>y \<le> 0\<close>.
\<close>

definition spec_poisson_deviance :: "mat \<Rightarrow> mat \<Rightarrow> mat \<Rightarrow> real" where
  "spec_poisson_deviance y mu wt =
     (\<Sum>i\<leftarrow>[0..<n_elem y].
        2 * mem wt ! i *
          ((if mem y ! i \<le> 0 then 0 else mem y ! i * ln (mem y ! i / mem mu ! i))
           - (mem y ! i - mem mu ! i)))"

section \<open>The transfer binding of the experiment\<close>

lemmas coeff_defs =
  Implicit_fn_call_def Get_score_coeff_call_def Get_score_coeff_first_derivative_def
  Get_score_coeff_second_derivative_def h_transfer_def h_first_derivative_def
  h_second_derivative_def call_uni_def dot_def

lemmas identity_defs =
  Imp_Identity_Transfer_transfer_def Imp_Identity_Transfer_first_derivative_def
  Imp_Identity_Transfer_second_derivative_def

text \<open>
  C2. For a transfer name other than \<open>identity\<close>, \<open>exp\<close> and \<open>logistic\<close> the constructor
  returns an experiment (it has no failing branch) whose transfer binding is empty, and
  \<open>h_transfer\<close> on that experiment throws \<open>bad_function_call\<close> at every argument instead of
  returning a value.
\<close>

theorem unknown_transfer_unbound:
  assumes "transfer_name \<noteq> ''identity''"
    and "transfer_name \<noteq> ''exp''"
    and "transfer_name \<noteq> ''logistic''"
  shows "transfer_fn (Imp_Experiment transfer_name p0 n0) = None \<and>
         h_transfer (Imp_Experiment transfer_name p0 n0) u = Inl Bad_function_call"
  using assms by (simp add: Imp_Experiment_def h_transfer_def call_uni_def)

theorem unknown_transfer_unbound_witness:
  "''probit'' \<noteq> ''identity'' \<and> ''probit'' \<noteq> ''exp'' \<and> ''probit'' \<noteq> ''logistic'' \<and>
   transfer_fn (Imp_Experiment ''probit'' 2 10) = None \<and>
   h_transfer (Imp_Experiment ''probit'' 2 10) 0 = Inl Bad_function_call"
  using unknown_transfer_unbound [of "''probit''" 2 10 0] by simp

section \<open>The triple of the root-finding functor\<close>

text \<open>
  C3. Let the three transfer bindings of the experiment be \<open>h\<close>, \<open>h1\<close> and \<open>h2\<close>, and let
  \<open>theta_old\<close> and \<open>x\<close> have the same number of elements, with \<open>d\<close> their dot product. Then
  \<open>Get_score_coeff\<close> returns \<open>g = y - h (d + normx * \<xi>)\<close>, \<open>g1 = h1 (d + normx * \<xi>) * normx\<close>
  and \<open>g2 = h2 (d + normx * \<xi>) * normx\<^sup>2\<close>, and \<open>Implicit_fn\<close> with rate \<open>a\<close> returns
  exactly the triple \<open>(\<xi> - a * g, 1 + a * g1, a * g2)\<close>, for every rate and every \<open>\<xi>\<close>.
  The member \<open>normx\<close> is what the specification writes \<open>\<parallel>x\<parallel>\<close>.
\<close>

theorem Implicit_fn_triple:
  assumes "transfer_fn (experiment gs) = Some h"
    and "transfer_first_deriv_fn (experiment gs) = Some h1"
    and "transfer_second_deriv_fn (experiment gs) = Some h2"
    and "n_elem (theta_old gs) = n_elem (data_x (datapoint gs))"
  shows "let d = (\<Sum>(u, v)\<leftarrow>zip (mem (theta_old gs)) (mem (data_x (datapoint gs))). u * v);
             g = data_y (datapoint gs) - h (d + normx gs * ksi);
             g1 = h1 (d + normx gs * ksi) * normx gs;
             g2 = h2 (d + normx gs * ksi) * (normx gs)\<^sup>2
         in Get_score_coeff_call gs ksi = Inr g \<and>
            Get_score_coeff_first_derivative gs ksi = Inr g1 \<and>
            Get_score_coeff_second_derivative gs ksi = Inr g2 \<and>
            Implicit_fn_call \<lparr>at_rate = a, g_coeff = gs\<rparr> ksi =
              Inr (ksi - a * g, 1 + a * g1, a * g2)"
  using assms by (simp add: coeff_defs power2_eq_square Let_def)

theorem Implicit_fn_triple_witness:
  "Implicit_fn_call
     \<lparr>at_rate = 1 / 10,
      g_coeff = \<lparr>experiment = Imp_Experiment ''exp'' 2 1,
                 datapoint = \<lparr>data_x = row_vec [1, 2], data_y = 3\<rparr>,
                 theta_old = col_vec [0, 0], normx = 5\<rparr>\<rparr> (1 / 5)
   = Inr (1 / 5 - 1 / 10 * (3 - exp 1), 1 + 1 / 10 * (exp 1 * 5), 1 / 10 * (exp 1 * 5\<^sup>2))"
  using Implicit_fn_triple
    [of "\<lparr>experiment = Imp_Experiment ''exp'' 2 1,
          datapoint = \<lparr>data_x = row_vec [1, 2], data_y = 3\<rparr>,
          theta_old = col_vec [0, 0], normx = 5\<rparr>"
        exp exp exp "1 / 5" "1 / 10"]
  by (simp add: Imp_Experiment_def row_vec_def col_vec_def n_elem_def Let_def
      Imp_Exp_Transfer_transfer_def [abs_def] Imp_Exp_Transfer_first_derivative_def [abs_def]
      Imp_Exp_Transfer_second_derivative_def [abs_def])

section \<open>The fixed point for the identity transfer\<close>

lemma root_unique:
  fixes a :: real
  assumes "1 + a * n \<noteq> 0"
  shows "ksi - a * (y - (d + n * ksi)) = 0 \<longleftrightarrow> ksi = a * (y - d) / (1 + a * n)"
proof -
  have "ksi - a * (y - (d + n * ksi)) = ksi * (1 + a * n) - a * (y - d)"
    by (simp add: algebra_simps)
  then show ?thesis using assms by (auto simp: field_simps)
qed

text \<open>
  C1, as the code has it. For an experiment whose three transfer members are bound to
  the identity transfer and its derivatives (whatever its learning-rate schedule and its
  other members), a rate \<open>a\<close> and the coefficient \<open>normx\<close> that \<open>Get_score_coeff\<close> multiplies
  \<open>\<xi>\<close> with, where \<open>1 + a * normx\<close> is not zero: the value component of \<open>Implicit_fn\<close> is
  zero at \<open>\<xi>* = a * (y - theta \<bullet> x) / (1 + a * normx)\<close> and nowhere else. With \<open>normx\<close>
  the squared norm of \<open>x\<close> this is the closed form of the specification; for
  \<open>theta = [0, 0]\<close>, \<open>x = [1, 2]\<close>, \<open>y = 3\<close>, \<open>a = 0.1\<close> and \<open>normx = 5\<close> it is \<open>0.2\<close>, on
  the identity experiment with the uniform schedule bound.
\<close>

theorem identity_root:
  assumes "transfer_fn (experiment gs) = Some Imp_Identity_Transfer_transfer"
    and "transfer_first_deriv_fn (experiment gs) = Some Imp_Identity_Transfer_first_derivative"
    and "transfer_second_deriv_fn (experiment gs) = Some Imp_Identity_Transfer_second_derivative"
    and "n_elem (theta_old gs) = n_elem (data_x (datapoint gs))"
    and "1 + a * normx gs \<noteq> 0"
  shows "let d = (\<Sum>(u, v)\<leftarrow>zip (mem (theta_old gs)) (mem (data_x (datapoint gs))). u * v);
             ksi_star = a * (data_y (datapoint gs) - d) / (1 + a * normx gs)
         in Implicit_fn_call \<lparr>at_rate = a, g_coeff = gs\<rparr> ksi_star
              = Inr (0, 1 + a * normx gs, 0) \<and>
            (\<forall>ksi. (\<exists>f s. Implicit_fn_call \<lparr>at_rate = a, g_coeff = gs\<rparr> ksi = Inr (0, f, s))
                     \<longrightarrow> ksi = ksi_star)"
proof -
  define d where
    "d = (\<Sum>(u, v)\<leftarrow>zip (mem (theta_old gs)) (mem (data_x (datapoint gs))). u * v)"
  have call: "Implicit_fn_call \<lparr>at_rate = a, g_coeff = gs\<rparr> ksi =
      Inr (ksi - a * (data_y (datapoint gs) - (d + normx gs * ksi)), 1 + a * normx gs, 0)"
    for ksi
    using assms(1-4) by (simp add: coeff_defs identity_defs d_def)
  define ks where "ks = a * (data_y (datapoint gs) - d) / (1 + a * normx gs)"
  have root: "ksi - a * (data_y (datapoint gs) - (d + normx gs * ksi)) = 0 \<longleftrightarrow> ksi = ks"
    for ksi
    unfolding ks_def by (rule root_unique [OF assms(5)])
  have "Implicit_fn_call \<lparr>at_rate = a, g_coeff = gs\<rparr> ks = Inr (0, 1 + a * normx gs, 0)"
    using root [of ks] by (simp add: call)
  moreover have "ksi = ks"
    if "\<exists>f s. Implicit_fn_call \<lparr>at_rate = a, g_coeff = gs\<rparr> ksi = Inr (0, f, s)" for ksi
    using that root [of ksi] by (simp add: call)
  ultimately show ?thesis
    unfolding Let_def d_def [symmetric] ks_def [symmetric] by blast
qed

theorem identity_root_witness:
  "transfer_fn (init_uni_dim_learning_rate (Imp_Experiment ''identity'' 2 1) 1 1 1 (1 / 10))
     = Some Imp_Identity_Transfer_transfer \<and>
   lr_fn (init_uni_dim_learning_rate (Imp_Experiment ''identity'' 2 1) 1 1 1 (1 / 10)) \<noteq> None \<and>
   Implicit_fn_call
     \<lparr>at_rate = 1 / 10,
      g_coeff = \<lparr>experiment =
                   init_uni_dim_learning_rate (Imp_Experiment ''identity'' 2 1) 1 1 1 (1 / 10),
                 datapoint = \<lparr>data_x = row_vec [1, 2], data_y = 3\<rparr>,
                 theta_old = col_vec [0, 0], normx = 5\<rparr>\<rparr> (1 / 5) = Inr (0, 3 / 2, 0)"
  using identity_root
    [of "\<lparr>experiment =
            init_uni_dim_learning_rate (Imp_Experiment ''identity'' 2 1) 1 1 1 (1 / 10),
          datapoint = \<lparr>data_x = row_vec [1, 2], data_y = 3\<rparr>,
          theta_old = col_vec [0, 0], normx = 5\<rparr>" "1 / 10"]
  by (simp add: init_uni_dim_learning_rate_def Imp_Experiment_def row_vec_def col_vec_def
      n_elem_def Let_def)

text \<open>
  C1, as it is stated, fails on its own example. With \<open>normx = \<parallel>x\<parallel> = sqrt 5\<close>, the
  coefficient of the stated equation, the stated closed form is \<open>0.2\<close>, and the value
  component there is \<open>sqrt 5 / 50 - 1 / 10\<close>, which is not zero.
\<close>

theorem closed_form_counterexample:
  "(1 / 10) * (3 - 0) / (1 + (1 / 10) * (spec_norm (row_vec [1, 2]))\<^sup>2) = (1 / 5 :: real) \<and>
   Implicit_fn_call
     \<lparr>at_rate = 1 / 10,
      g_coeff = \<lparr>experiment = Imp_Experiment ''identity'' 2 1,
                 datapoint = \<lparr>data_x = row_vec [1, 2], data_y = 3\<rparr>,
                 theta_old = col_vec [0, 0], normx = spec_norm (row_vec [1, 2])\<rparr>\<rparr> (1 / 5)
     = Inr (sqrt 5 / 50 - 1 / 10, 1 + sqrt 5 / 10, 0) \<and>
   sqrt 5 / 50 - 1 / 10 \<noteq> (0 :: real)"
proof -
  have "sqrt 5 < 5" by (rule real_less_lsqrt) simp_all
  then show ?thesis
    by (simp add: row_vec_def col_vec_def spec_norm_def Imp_Experiment_def coeff_defs
        n_elem_def identity_defs field_simps)
qed

section \<open>Matrices: indexing and the operations\<close>

lemma idx_bound: "i < r \<Longrightarrow> j < c \<Longrightarrow> i + j * r < r * (c::nat)"
proof -
  assume a: "i < r" "j < c"
  then have "i + j * r < r + j * r" by simp
  also have "\<dots> = r * Suc j" by simp
  also have "\<dots> \<le> r * c" using a(2) by (intro mult_le_mono2) simp
  finally show ?thesis .
qed

lemma idx_inj:
  "i < r \<Longrightarrow> i' < r \<Longrightarrow> i + j * r = i' + j' * (r::nat) \<longleftrightarrow> i = i' \<and> j = j'"
proof
  assume a: "i < r" "i' < r" and e: "i + j * r = i' + j' * r"
  from e have "(i + j * r) mod r = (i' + j' * r) mod r" by simp
  with a have "i = i'" by simp
  moreover from e have "(i + j * r) div r = (i' + j' * r) div r" by simp
  with a have "j = j'" by simp
  ultimately show "i = i' \<and> j = j'" ..
qed simp

lemma mat_gen_sel [simp]:
  "n_rows (mat_gen r c f) = r" "n_cols (mat_gen r c f) = c"
  "length (mem (mat_gen r c f)) = r * c"
  by (simp_all add: mat_gen_def)

lemma wf_mat_gen [simp]: "wf_mat (mat_gen r c f)"
  by (simp add: wf_mat_def)

lemma mat_at_gen [simp]: "i < r \<Longrightarrow> j < c \<Longrightarrow> mat_at (mat_gen r c f) i j = f i j"
  using idx_bound [of i r j c] by (simp add: mat_at_def mat_gen_def)

lemma mat_at_set_at:
  assumes "wf_mat A" "i < n_rows A" "j < n_cols A" "i' < n_rows A" "j' < n_cols A"
  shows "mat_at (set_at A i j v) i' j' = (if i' = i \<and> j' = j then v else mat_at A i' j')"
  using assms idx_bound [of i "n_rows A" j "n_cols A"] idx_inj [of i "n_rows A" i' j j']
  by (auto simp: mat_at_def set_at_def wf_mat_def)

lemma set_at_sel [simp]:
  "n_rows (set_at A i j v) = n_rows A" "n_cols (set_at A i j v) = n_cols A"
  "wf_mat (set_at A i j v) = wf_mat A"
  by (simp_all add: set_at_def wf_mat_def)

lemma mat_at_times_scalar:
  "wf_mat A \<Longrightarrow> i < n_rows A \<Longrightarrow> j < n_cols A \<Longrightarrow>
   mat_at (mat_times_scalar A k) i j = mat_at A i j * k"
  using idx_bound [of i "n_rows A" j "n_cols A"]
  by (simp add: mat_at_def mat_times_scalar_def wf_mat_def)

lemma times_scalar_sel [simp]:
  "n_rows (mat_times_scalar A k) = n_rows A" "n_cols (mat_times_scalar A k) = n_cols A"
  "wf_mat (mat_times_scalar A k) = wf_mat A"
  by (simp_all add: mat_times_scalar_def wf_mat_def)

lemma mat_plus_Inr:
  assumes "wf_mat A" "wf_mat B" "n_rows B = n_rows A" "n_cols B = n_cols A"
  shows "\<exists>C. mat_plus A B = Inr C \<and> n_rows C = n_rows A \<and> n_cols C = n_cols A \<and> wf_mat C \<and>
     (\<forall>i<n_rows A. \<forall>j<n_cols A. mat_at C i j = mat_at A i j + mat_at B i j)"
proof -
  have "mat_at (A\<lparr>mem := map2 (+) (mem A) (mem B)\<rparr>) i j = mat_at A i j + mat_at B i j"
    if "i < n_rows A" "j < n_cols A" for i j
    using that assms idx_bound [of i "n_rows A" j "n_cols A"]
    by (simp add: mat_at_def wf_mat_def)
  then show ?thesis using assms by (simp add: mat_plus_def same_size_def wf_mat_def)
qed

lemma diagmat_sq:
  assumes "n_rows A = n" "n_cols A = n" "wf_mat A"
  shows "n_rows (diagmat A) = n \<and> n_cols (diagmat A) = n \<and> wf_mat (diagmat A) \<and>
     (\<forall>i<n. \<forall>j<n. mat_at (diagmat A) i j = (if i = j then mat_at A i i else 0))"
proof (cases "n = 1")
  case True
  have "mat_at A 0 0 = mem A ! 0" by (simp add: mat_at_def)
  then show ?thesis using True assms by (simp add: diagmat_def n_elem_def)
next
  case False
  then show ?thesis using assms by (simp add: diagmat_def)
qed

lemma gram_diag:
  "\<exists>B. mat_times Gi (trans_mat Gi) = Inr B \<and> n_rows B = n_rows Gi \<and> n_cols B = n_rows Gi \<and>
     wf_mat B \<and> (\<forall>i<n_rows Gi. mat_at B i i = (\<Sum>k\<leftarrow>[0..<n_cols Gi]. (mat_at Gi i k)\<^sup>2))"
proof -
  have "(\<Sum>k\<leftarrow>[0..<n_cols Gi]. mat_at Gi i k * mat_at (trans_mat Gi) k i)
      = (\<Sum>k\<leftarrow>[0..<n_cols Gi]. (mat_at Gi i k)\<^sup>2)" if "i < n_rows Gi" for i
    using that
    by (intro arg_cong [where f = sum_list] map_cong)
      (simp_all add: trans_mat_def power2_eq_square)
  then show ?thesis by (simp add: mat_times_def trans_mat_def)
qed

lemma col_entry:
  assumes "wf_mat A" "j < n_cols A" "i < n_rows A"
  shows "take (n_rows A) (drop (j * n_rows A) (mem A)) ! i = mat_at A i j"
  using assms idx_bound [of i "n_rows A" j "n_cols A"]
  by (simp add: mat_at_def wf_mat_def add.commute)

lemma elem_Inr: "i < n_rows A \<Longrightarrow> n_cols A = 1 \<Longrightarrow> elem A i = Inr (mem A ! i)"
  by (simp add: elem_def n_elem_def)

lemma set_elem_Inr:
  "i < n_rows A \<Longrightarrow> n_cols A = 1 \<Longrightarrow> set_elem A i v = Inr (A\<lparr>mem := (mem A)[i := v]\<rparr>)"
  by (simp add: set_elem_def n_elem_def)

lemma sum_list_all_zero: "(\<And>v. v \<in> set xs \<Longrightarrow> v = (0::real)) \<Longrightarrow> sum_list xs = 0"
  by (induction xs) simp_all

lemma sum_list_by_index: "sum_list (map f xs) = (\<Sum>i\<leftarrow>[0..<length xs]. f (xs ! i))"
proof -
  have "map f xs = map f (map (\<lambda>i. xs ! i) [0..<length xs])" by (simp only: map_nth)
  then show ?thesis by (simp add: comp_def)
qed

section \<open>Loops\<close>

declare for_loop.simps [simp del]

text \<open>
  An invariant that holds before the loop and is carried by every round of the body,
  which does not throw, holds at the bound: the loop ends and returns.
\<close>

lemma for_loop_inv:
  assumes "I i s" and "i \<le> n"
    and step: "\<And>k s. i \<le> k \<Longrightarrow> k < n \<Longrightarrow> I k s \<Longrightarrow> \<exists>s'. body k s = Inr s' \<and> I (Suc k) s'"
  shows "\<exists>s'. for_loop i n body s = Inr s' \<and> I n s'"
  using assms
proof (induction "n - i" arbitrary: i s)
  case 0
  then show ?case by (simp add: for_loop.simps [of i])
next
  case (Suc m)
  then have "i < n" by simp
  with Suc.prems obtain s' where s': "body i s = Inr s'" "I (Suc i) s'" by blast
  have "\<exists>s''. for_loop (Suc i) n body s' = Inr s'' \<and> I n s''"
  proof (rule Suc.hyps(1))
    show "m = n - Suc i" using Suc.hyps(2) by simp
    show "I (Suc i) s'" by fact
    show "Suc i \<le> n" using \<open>i < n\<close> by simp
    show "\<exists>s'. body k s = Inr s' \<and> I (Suc k) s'" if "Suc i \<le> k" "k < n" "I k s" for k s
      using that Suc.prems(3) [of k s] by simp
  qed
  then show ?case using \<open>i < n\<close> s' by (simp add: for_loop.simps [of i])
qed

section \<open>The score function\<close>

lemma score_function_eq:
  assumes "transfer_fn e = Some h"
    and "wf_mat X" "n_rows X = 1" "n_cols X = p"
    and "n_rows theta = p" "n_cols theta = 1"
  shows "score_function e theta \<lparr>data_x = X, data_y = y\<rparr> =
     Inr (col_vec (map (\<lambda>v. (y - h (\<Sum>k\<leftarrow>[0..<p]. mat_at X 0 k * mat_at theta k 0)) * v) (mem X)))"
proof -
  have len: "length (mem X) = p" using assms by (simp add: wf_mat_def)
  have "mat_times X theta =
      Inr (mat_gen 1 1 (\<lambda>i j. \<Sum>k\<leftarrow>[0..<p]. mat_at X i k * mat_at theta k j))"
    using assms by (simp add: mat_times_def)
  moreover have
    "as_scalar (mat_gen 1 1 (\<lambda>i j. \<Sum>k\<leftarrow>[0..<p]. mat_at X i k * mat_at theta k j))
       = Inr (\<Sum>k\<leftarrow>[0..<p]. mat_at X 0 k * mat_at theta k 0)"
    by (simp add: as_scalar_def n_elem_def mat_gen_def)
  moreover have "trans_mat (scalar_times_mat c X) = col_vec (map (\<lambda>v. c * v) (mem X))" for c
    using assms len
    by (auto simp: trans_mat_def scalar_times_mat_def col_vec_def mat_gen_def mat_at_def
        intro!: nth_equalityI)
  ultimately show ?thesis
    using assms(1) by (simp add: score_function_def h_transfer_def call_uni_def)
qed

text \<open>
  C4. With the transfer \<open>h\<close> bound at construction, a row vector \<open>x\<close> of \<open>p\<close> columns and
  a column vector \<open>theta_old\<close> of \<open>p\<close> rows, \<open>score_function\<close> returns the column vector
  of \<open>p\<close> rows whose \<open>i\<close>-th entry is \<open>(y - h (x \<bullet> theta_old)) * x\<^sub>i\<close>. The function takes
  its arguments by constant reference and returns a new matrix; in the model it is a
  function of the values, so neither argument can change.
\<close>

theorem score_function_value:
  assumes "transfer_fn e = Some h"
    and "wf_mat X" "n_rows X = 1" "n_cols X = p"
    and "n_rows theta = p" "n_cols theta = 1"
  shows "\<exists>G. score_function e theta \<lparr>data_x = X, data_y = y\<rparr> = Inr G \<and>
             n_rows G = p \<and> n_cols G = 1 \<and> wf_mat G \<and>
             (\<forall>i<p. mat_at G i 0 =
                (y - h (\<Sum>k\<leftarrow>[0..<p]. mat_at X 0 k * mat_at theta k 0)) * mat_at X 0 i)"
proof -
  have "length (mem X) = p" using assms by (simp add: wf_mat_def)
  then show ?thesis
    unfolding score_function_eq [OF assms] using assms(3)
    by (simp add: col_vec_def wf_mat_def mat_at_def)
qed

theorem score_function_value_witness:
  "\<exists>G. score_function (Imp_Experiment ''identity'' 2 1) (col_vec [1, 1])
          \<lparr>data_x = row_vec [1, 2], data_y = 5\<rparr> = Inr G \<and>
       n_rows G = 2 \<and> n_cols G = 1 \<and> mat_at G 0 0 = 2 \<and> mat_at G 1 0 = 4"
proof -
  have "\<exists>G. score_function (Imp_Experiment ''identity'' 2 1) (col_vec [1, 1])
          \<lparr>data_x = row_vec [1, 2], data_y = 5\<rparr> = Inr G \<and>
       n_rows G = 2 \<and> n_cols G = 1 \<and> wf_mat G \<and>
       (\<forall>i<2. mat_at G i 0 =
          (5 - Imp_Identity_Transfer_transfer
                 (\<Sum>k\<leftarrow>[0..<2]. mat_at (row_vec [1, 2]) 0 k * mat_at (col_vec [1, 1]) k 0))
            * mat_at (row_vec [1, 2]) 0 i)"
    by (rule score_function_value)
      (simp_all add: Imp_Experiment_def row_vec_def col_vec_def wf_mat_def)
  then obtain G where G: "score_function (Imp_Experiment ''identity'' 2 1) (col_vec [1, 1])
          \<lparr>data_x = row_vec [1, 2], data_y = 5\<rparr> = Inr G" "n_rows G = 2" "n_cols G = 1"
     and ent: "\<forall>i<2. mat_at G i 0 =
          (5 - Imp_Identity_Transfer_transfer
                 (\<Sum>k\<leftarrow>[0..<2]. mat_at (row_vec [1, 2]) 0 k * mat_at (col_vec [1, 1]) k 0))
            * mat_at (row_vec [1, 2]) 0 i"
    by blast
  have u: "(\<Sum>k\<leftarrow>[0..<2]. mat_at (row_vec [1, 2]) 0 k * mat_at (col_vec [1, 1]) k 0) = 3"
    by (simp add: row_vec_def col_vec_def mat_at_def upt_rec)
  have "mat_at G 0 0 = 2" "mat_at G 1 0 = 4"
    using ent u by (simp_all add: identity_defs row_vec_def mat_at_def)
  with G show ?thesis by blast
qed

section \<open>The uniform schedule\<close>

lemma unidim_base:
  assumes "0 < alpha" "0 \<le> gamma"
  shows "1 \<le> 1 + alpha * gamma * real t"
  using assms by simp

lemma rate_antimono:
  fixes alpha gamma c sg :: real
  assumes "0 < alpha" "0 < c" "0 \<le> gamma" "0 \<le> sg" "t \<le> t'"
  shows "sg * (1 + alpha * gamma * real t') powr (- c)
           \<le> sg * (1 + alpha * gamma * real t) powr (- c)"
proof -
  have "1 + alpha * gamma * real t \<le> 1 + alpha * gamma * real t'"
    using assms by (simp add: mult_left_mono)
  moreover have "0 < 1 + alpha * gamma * real t"
    using unidim_base [OF assms(1,3), of t] by linarith
  ultimately have
    "(1 + alpha * gamma * real t') powr (- c) \<le> (1 + alpha * gamma * real t) powr (- c)"
    using assms(2) by (intro powr_mono2') simp_all
  then show ?thesis using assms(4) by (rule mult_left_mono)
qed

text \<open>
  C7, as the code has it. For \<open>\<alpha> > 0\<close>, \<open>c > 0\<close> and \<open>\<gamma> \<ge> 0\<close> the uniform schedule
  returns, for every \<open>t\<close> and \<open>p\<close>, the \<open>p \<times> p\<close> matrix with
  \<open>rate t = scale * \<gamma> * (1 + \<alpha> * \<gamma> * t) powr (- c)\<close> on the diagonal and zero
  elsewhere; \<open>rate 0 = scale * \<gamma>\<close>; and when moreover \<open>scale * \<gamma> \<ge> 0\<close> the rate does
  not increase with \<open>t\<close>.
\<close>

theorem unidim_rate:
  assumes "0 < alpha" "0 < c" "0 \<le> gamma"
  shows "let rate = (\<lambda>t. scale * gamma * (1 + alpha * gamma * real t) powr (- c)) in
         (\<exists>M. Imp_Unidim_Learn_Rate_learning_rate theta d t p gamma alpha c scale = Inr M \<and>
              n_rows M = p \<and> n_cols M = p \<and> wf_mat M \<and>
              (\<forall>i<p. \<forall>j<p. mat_at M i j = (if i = j then rate t else 0))) \<and>
         rate 0 = scale * gamma \<and>
         (0 \<le> scale * gamma \<longrightarrow> (\<forall>t1 t2. t1 \<le> t2 \<longrightarrow> rate t2 \<le> rate t1))"
proof -
  have pos: "0 < 1 + alpha * gamma * real t" for t
    using unidim_base [OF assms(1,3), of t] by linarith
  have "Imp_Unidim_Learn_Rate_learning_rate theta d t p gamma alpha c scale =
      Inr (mat_times_scalar (eye p p) (scale * gamma * (1 + alpha * gamma * real t) powr (- c)))"
    using pos [of t]
    by (simp add: Imp_Unidim_Learn_Rate_learning_rate_def pow_finite_def pow_def Let_def)
  moreover have "mat_at (mat_times_scalar (eye p p) k) i j = (if i = j then k else 0)"
    if "i < p" "j < p" for i j k
    using that by (simp add: mat_at_times_scalar eye_def)
  moreover have "wf_mat (mat_times_scalar (eye p p) k)"
    "n_rows (mat_times_scalar (eye p p) k) = p"
    "n_cols (mat_times_scalar (eye p p) k) = p" for k
    by (simp_all add: eye_def)
  moreover have "scale * gamma * (1 + alpha * gamma * real t2) powr (- c)
      \<le> scale * gamma * (1 + alpha * gamma * real t1) powr (- c)"
    if "0 \<le> scale * gamma" "t1 \<le> t2" for t1 t2
    using rate_antimono [OF assms that] .
  ultimately show ?thesis by (simp add: Let_def)
qed

theorem unidim_rate_witness:
  "(\<exists>M. Imp_Unidim_Learn_Rate_learning_rate (col_vec [0, 0])
           \<lparr>data_x = row_vec [1, 2], data_y = 3\<rparr> 3 2 1 1 1 2 = Inr M \<and>
        mat_at M 0 0 = 1 / 2 \<and> mat_at M 1 0 = 0 \<and> mat_at M 0 1 = 0 \<and> mat_at M 1 1 = 1 / 2) \<and>
   (2 :: real) * 1 * (1 + 1 * 1 * real 3) powr (- 1) \<le> 2 * 1 * (1 + 1 * 1 * real 0) powr (- 1)"
proof -
  have h: "(0::real) < 1" "(0::real) \<le> 1" "(0::real) \<le> 2 * 1" by simp_all
  note th = unidim_rate [OF h(1) h(1) h(2), of 2 "col_vec [0, 0]"
      "\<lparr>data_x = row_vec [1, 2], data_y = 3\<rparr>" 3 2, unfolded Let_def]
  from th obtain M where M: "Imp_Unidim_Learn_Rate_learning_rate (col_vec [0, 0])
           \<lparr>data_x = row_vec [1, 2], data_y = 3\<rparr> 3 2 1 1 1 2 = Inr M"
    and ent: "\<forall>i<2. \<forall>j<2. mat_at M i j =
        (if i = j then 2 * 1 * (1 + 1 * 1 * real 3) powr (- 1) else 0)"
    by blast
  have r: "(2 :: real) * 1 * (1 + 1 * 1 * real 3) powr (- 1) = 1 / 2"
    by (simp add: powr_minus)
  have "mat_at M 0 0 = 1 / 2" "mat_at M 1 0 = 0" "mat_at M 0 1 = 0" "mat_at M 1 1 = 1 / 2"
    using ent r by simp_all
  moreover have
    "(2 :: real) * 1 * (1 + 1 * 1 * real 3) powr (- 1) \<le> 2 * 1 * (1 + 1 * 1 * real 0) powr (- 1)"
    using th h(3) by blast
  ultimately show ?thesis using M by blast
qed

text \<open>
  C7, as it is stated, fails for a negative \<open>scale\<close>: with \<open>\<gamma> = \<alpha> = c = 1\<close> and
  \<open>scale = -1\<close> the rate is \<open>-1\<close> at \<open>t = 0\<close> and \<open>-1/2\<close> at \<open>t = 1\<close>, so it increases.
  And for a negative \<open>\<gamma>\<close> the base of the power becomes negative: with \<open>\<gamma> = -1\<close>,
  \<open>\<alpha> = 1\<close>, \<open>c = 1/2\<close> and \<open>t = 2\<close> the call of \<open>pow\<close> is \<open>pow(-1, -0.5)\<close>, and no
  finite matrix is returned.
\<close>

theorem unidim_rate_counterexample:
  "Imp_Unidim_Learn_Rate_learning_rate (col_vec [0]) \<lparr>data_x = row_vec [1], data_y = 3\<rparr>
       0 1 1 1 1 (- 1)
     = Inr \<lparr>n_rows = 1, n_cols = 1, mem = [- 1]\<rparr> \<and>
   Imp_Unidim_Learn_Rate_learning_rate (col_vec [0]) \<lparr>data_x = row_vec [1], data_y = 3\<rparr>
       1 1 1 1 1 (- 1)
     = Inr \<lparr>n_rows = 1, n_cols = 1, mem = [- (1 / 2)]\<rparr> \<and>
   (- 1 :: real) < - (1 / 2) \<and>
   Imp_Unidim_Learn_Rate_learning_rate (col_vec [0]) \<lparr>data_x = row_vec [1], data_y = 3\<rparr>
       2 1 (- 1) 1 (1 / 2) 1
     = Inl Non_finite"
  by (simp add: Imp_Unidim_Learn_Rate_learning_rate_def pow_finite_def pow_def eye_def
      mat_gen_def mat_times_scalar_def powr_minus)

section \<open>The last estimate\<close>

lemma uword_minus_one:
  assumes "0 < w" "a < 2 ^ w"
  shows "uword_minus w a 1 = (if a = 0 then 2 ^ w - 1 else a - 1)"
proof -
  have one: "(1::nat) mod 2 ^ w = 1" using assms(1) by simp
  have e: "uword_minus w a 1 = (a + (2 ^ w - 1)) mod 2 ^ w"
    unfolding uword_minus_def one using assms(2) by simp
  show ?thesis
  proof (cases "a = 0")
    case True
    then show ?thesis using e by simp
  next
    case False
    then have "a + (2 ^ w - 1) = (a - 1) + 2 ^ w" by simp
    then have "uword_minus w a 1 = (a - 1) mod 2 ^ w" using e by simp
    moreover have "a - 1 < 2 ^ w" using assms(2) by simp
    ultimately show ?thesis using False by simp
  qed
qed

text \<open>
  C10. Let \<open>n_cols\<close> be an unsigned number of \<open>w > 0\<close> bits. When the estimates matrix has
  no column, the index \<open>n_cols - 1\<close> wraps around to \<open>2 ^ w - 1\<close> and the access to that
  column is out of bounds; when it has at least one column, \<open>last_estimate\<close> returns its
  final column. The default-constructed output is the first case (the witness).
\<close>

theorem last_estimate_cases:
  assumes "0 < w" and "n_cols (estimates out) < 2 ^ w" and "wf_mat (estimates out)"
  shows "(n_cols (estimates out) = 0 \<longrightarrow>
            uword_minus w (n_cols (estimates out)) 1 = 2 ^ w - 1 \<and>
            last_estimate w out = Inl Index_out_of_bounds) \<and>
         (0 < n_cols (estimates out) \<longrightarrow>
            (\<exists>C. last_estimate w out = Inr C \<and>
                 n_rows C = n_rows (estimates out) \<and> n_cols C = 1 \<and>
                 (\<forall>i<n_rows (estimates out).
                     mat_at C i 0 = mat_at (estimates out) i (n_cols (estimates out) - 1))))"
proof (cases "n_cols (estimates out) = 0")
  case True
  then show ?thesis
    using uword_minus_one [OF assms(1,2)] by (simp add: last_estimate_def col_def)
next
  case False
  let ?E = "estimates out"
  let ?C = "\<lparr>n_rows = n_rows ?E, n_cols = 1,
             mem = take (n_rows ?E) (drop ((n_cols ?E - 1) * n_rows ?E) (mem ?E))\<rparr>"
  have "last_estimate w out = Inr ?C"
    using False uword_minus_one [OF assms(1,2)] by (simp add: last_estimate_def col_def)
  moreover have "mat_at ?C i 0 = mat_at ?E i (n_cols ?E - 1)" if "i < n_rows ?E" for i
    using col_entry [OF assms(3) _ that, of "n_cols ?E - 1"] False
    by (simp add: mat_at_def)
  ultimately show ?thesis using False by simp
qed

theorem last_estimate_cases_witness:
  "uword_minus 32 (n_cols (estimates Imp_OnlineOutput)) 1 = 4294967295 \<and>
   last_estimate 32 Imp_OnlineOutput = Inl Index_out_of_bounds \<and>
   (\<exists>C. last_estimate 32 \<lparr>estimates = \<lparr>n_rows = 2, n_cols = 2, mem = [1, 2, 3, 4]\<rparr>\<rparr> = Inr C \<and>
        n_rows C = 2 \<and> n_cols C = 1 \<and> mat_at C 0 0 = 3 \<and> mat_at C 1 0 = 4)"
proof -
  have a: "uword_minus 32 (n_cols (estimates Imp_OnlineOutput)) 1 = 4294967295 \<and>
      last_estimate 32 Imp_OnlineOutput = Inl Index_out_of_bounds"
    using last_estimate_cases [of 32 Imp_OnlineOutput]
    by (simp add: Imp_OnlineOutput_def mat_default_def wf_mat_def)
  let ?out = "\<lparr>estimates = \<lparr>n_rows = 2, n_cols = 2, mem = [1, 2, 3, 4]\<rparr>\<rparr>"
  from last_estimate_cases [of 32 ?out]
  obtain C where C: "last_estimate 32 ?out = Inr C" "n_rows C = 2" "n_cols C = 1"
    and ent: "\<forall>i<2. mat_at C i 0 = mat_at (estimates ?out) i 1"
    by (auto simp: wf_mat_def)
  have "mat_at C 0 0 = 3" "mat_at C 1 0 = 4"
    using ent by (simp_all add: mat_at_def)
  with a C show ?thesis by blast
qed

section \<open>The diagonal schedule\<close>

lemma pxdim_loop:
  assumes "wf_mat P" "n_rows P = p" "n_cols P = p"
  shows "\<exists>M. for_loop 0 p
           (\<lambda>i Idiag. Inr (if \<bar>mat_at Idiag i i\<bar> > 1 / 10 ^ 8
                            then set_at Idiag i i (1 / mat_at Idiag i i) else Idiag)) P = Inr M \<and>
      n_rows M = p \<and> n_cols M = p \<and> wf_mat M \<and>
      (\<forall>i<p. \<forall>j<p. mat_at M i j =
          (if i = j \<and> \<bar>mat_at P i i\<bar> > 1 / 10 ^ 8 then 1 / mat_at P i i else mat_at P i j))"
proof -
  let ?I = "\<lambda>k M. n_rows M = p \<and> n_cols M = p \<and> wf_mat M \<and>
      (\<forall>i<p. \<forall>j<p. mat_at M i j =
          (if i = j \<and> i < k \<and> \<bar>mat_at P i i\<bar> > 1 / 10 ^ 8
           then 1 / mat_at P i i else mat_at P i j))"
  have "\<exists>M. for_loop 0 p
           (\<lambda>i Idiag. Inr (if \<bar>mat_at Idiag i i\<bar> > 1 / 10 ^ 8
                            then set_at Idiag i i (1 / mat_at Idiag i i) else Idiag)) P = Inr M \<and>
            ?I p M"
  proof (rule for_loop_inv [where I = ?I])
    show "?I 0 P" using assms by simp
    show "0 \<le> p" by simp
  next
    fix k M assume k: "k < p" and inv: "?I k M"
    then have kk: "mat_at M k k = mat_at P k k" by simp
    show "\<exists>s'. Inr (if \<bar>mat_at M k k\<bar> > 1 / 10 ^ 8
                     then set_at M k k (1 / mat_at M k k) else M) = Inr s' \<and> ?I (Suc k) s'"
    proof (cases "\<bar>mat_at P k k\<bar> > 1 / 10 ^ 8")
      case True
      have "mat_at (set_at M k k (1 / mat_at P k k)) i j =
          (if i = j \<and> i < Suc k \<and> \<bar>mat_at P i i\<bar> > 1 / 10 ^ 8
           then 1 / mat_at P i i else mat_at P i j)"
        if "i < p" "j < p" for i j
        using that k inv True by (auto simp: mat_at_set_at less_Suc_eq)
      then show ?thesis using True kk inv by simp
    next
      case False
      then show ?thesis using kk inv by (auto simp: less_Suc_eq)
    qed
  qed
  then show ?thesis by auto
qed

text \<open>
  What the schedule does when the score function returns a matrix \<open>Gi\<close> of \<open>p\<close> rows:
  \<open>P\<close> is the matrix \<open>Idiag + diagmat (Gi * Gi.t())\<close> that the loop starts from, and \<open>M\<close>
  the matrix that is returned.
\<close>

lemma pxdim_core:
  assumes "score_func theta d = Inr Gi" "n_rows Gi = p"
  shows "\<exists>B P M. mat_times Gi (trans_mat Gi) = Inr B \<and>
     mat_plus (eye p p) (diagmat B) = Inr P \<and>
     Imp_Pxdim_Learn_Rate_learning_rate theta d t p score_func = Inr M \<and>
     n_rows M = p \<and> n_cols M = p \<and> wf_mat M \<and>
     (\<forall>i<p. \<forall>j<p. mat_at P i j =
        (if i = j then 1 + (\<Sum>k\<leftarrow>[0..<n_cols Gi]. (mat_at Gi i k)\<^sup>2) else 0)) \<and>
     (\<forall>i<p. \<forall>j<p. mat_at M i j =
        (if i = j \<and> \<bar>mat_at P i i\<bar> > 1 / 10 ^ 8 then 1 / mat_at P i i else mat_at P i j))"
proof -
  obtain B where B: "mat_times Gi (trans_mat Gi) = Inr B" "n_rows B = p" "n_cols B = p"
    "wf_mat B" "\<forall>i<p. mat_at B i i = (\<Sum>k\<leftarrow>[0..<n_cols Gi]. (mat_at Gi i k)\<^sup>2)"
    using gram_diag [of Gi] assms(2) by auto
  note D = diagmat_sq [OF B(2,3,4)]
  obtain P where P: "mat_plus (eye p p) (diagmat B) = Inr P" "n_rows P = p" "n_cols P = p"
    "wf_mat P" "\<forall>i<p. \<forall>j<p. mat_at P i j = mat_at (eye p p) i j + mat_at (diagmat B) i j"
    using mat_plus_Inr [of "eye p p" "diagmat B"] D by (auto simp: eye_def)
  have Pij: "\<forall>i<p. \<forall>j<p. mat_at P i j =
      (if i = j then 1 + (\<Sum>k\<leftarrow>[0..<n_cols Gi]. (mat_at Gi i k)\<^sup>2) else 0)"
    using P(5) D B(5) by (simp add: eye_def)
  obtain M where M: "for_loop 0 p
           (\<lambda>i Idiag. Inr (if \<bar>mat_at Idiag i i\<bar> > 1 / 10 ^ 8
                            then set_at Idiag i i (1 / mat_at Idiag i i) else Idiag)) P = Inr M"
      "n_rows M = p" "n_cols M = p" "wf_mat M"
      "\<forall>i<p. \<forall>j<p. mat_at M i j =
          (if i = j \<and> \<bar>mat_at P i i\<bar> > 1 / 10 ^ 8 then 1 / mat_at P i i else mat_at P i j)"
    using pxdim_loop [OF P(4,2,3)] by blast
  have "Imp_Pxdim_Learn_Rate_learning_rate theta d t p score_func = Inr M"
    using assms(1) B(1) P(1) M(1) by (simp add: Imp_Pxdim_Learn_Rate_learning_rate_def)
  then show ?thesis using B(1) P(1) M(2-5) Pij by blast
qed

text \<open>
  C5. Let the score at \<open>(theta_old, data point)\<close> be a matrix \<open>Gi\<close> of \<open>p\<close> rows, and let
  \<open>P = I + diagmat (Gi * Gi\<^sup>t)\<close> be the pre-inversion matrix. The diagonal schedule returns
  a \<open>p \<times> p\<close> matrix \<open>M\<close> whose off-diagonal entries are zero; a diagonal entry of \<open>P\<close> of
  magnitude above \<open>1e-8\<close> is replaced by its reciprocal, and one of magnitude at most
  \<open>1e-8\<close> is returned unchanged.
\<close>

theorem pxdim_rate_diagonal:
  assumes "score_func theta d = Inr Gi" "n_rows Gi = p"
  shows "\<exists>GGt P M. mat_times Gi (trans_mat Gi) = Inr GGt \<and>
     mat_plus (eye p p) (diagmat GGt) = Inr P \<and>
     Imp_Pxdim_Learn_Rate_learning_rate theta d t p score_func = Inr M \<and>
     (\<forall>i<p. \<forall>j<p. mat_at P i j =
        (if i = j then 1 + (\<Sum>k\<leftarrow>[0..<n_cols Gi]. (mat_at Gi i k)\<^sup>2) else 0)) \<and>
     n_rows M = p \<and> n_cols M = p \<and> wf_mat M \<and>
     (\<forall>i<p. \<forall>j<p. i \<noteq> j \<longrightarrow> mat_at M i j = 0) \<and>
     (\<forall>i<p. (\<bar>mat_at P i i\<bar> > 1 / 10 ^ 8 \<longrightarrow> mat_at M i i = 1 / mat_at P i i) \<and>
            (\<bar>mat_at P i i\<bar> \<le> 1 / 10 ^ 8 \<longrightarrow> mat_at M i i = mat_at P i i))"
proof -
  from pxdim_core [where score_func = score_func and theta = theta and d = d and t = t,
      OF assms]
  obtain B P M where c: "mat_times Gi (trans_mat Gi) = Inr B"
    "mat_plus (eye p p) (diagmat B) = Inr P"
    "Imp_Pxdim_Learn_Rate_learning_rate theta d t p score_func = Inr M"
    "n_rows M = p" "n_cols M = p" "wf_mat M"
    and pre: "\<forall>i<p. \<forall>j<p. mat_at P i j =
        (if i = j then 1 + (\<Sum>k\<leftarrow>[0..<n_cols Gi]. (mat_at Gi i k)\<^sup>2) else 0)"
    and ent: "\<forall>i<p. \<forall>j<p. mat_at M i j =
        (if i = j \<and> \<bar>mat_at P i i\<bar> > 1 / 10 ^ 8 then 1 / mat_at P i i else mat_at P i j)"
    by blast
  have "\<forall>i<p. \<forall>j<p. i \<noteq> j \<longrightarrow> mat_at M i j = 0"
    using ent pre by simp
  moreover have
    "\<forall>i<p. (\<bar>mat_at P i i\<bar> > 1 / 10 ^ 8 \<longrightarrow> mat_at M i i = 1 / mat_at P i i) \<and>
           (\<bar>mat_at P i i\<bar> \<le> 1 / 10 ^ 8 \<longrightarrow> mat_at M i i = mat_at P i i)"
    using ent by simp
  ultimately show ?thesis using c pre by blast
qed

lemma score_example:
  "score_function (Imp_Experiment ''identity'' 2 1) (col_vec [0, 0])
     \<lparr>data_x = row_vec [1, 2], data_y = 3\<rparr> = Inr (col_vec [3, 6])"
proof -
  have "score_function (Imp_Experiment ''identity'' 2 1) (col_vec [0, 0])
     \<lparr>data_x = row_vec [1, 2], data_y = 3\<rparr> =
     Inr (col_vec (map (\<lambda>v. (3 - Imp_Identity_Transfer_transfer
        (\<Sum>k\<leftarrow>[0..<2]. mat_at (row_vec [1, 2]) 0 k * mat_at (col_vec [0, 0]) k 0)) * v)
        (mem (row_vec [1, 2]))))"
    by (rule score_function_eq)
      (simp_all add: Imp_Experiment_def row_vec_def col_vec_def wf_mat_def)
  then show ?thesis
    by (simp add: identity_defs row_vec_def col_vec_def mat_at_def upt_rec)
qed

theorem pxdim_rate_diagonal_witness:
  "\<exists>M. Imp_Pxdim_Learn_Rate_learning_rate (col_vec [0, 0])
          \<lparr>data_x = row_vec [1, 2], data_y = 3\<rparr> 0 2
          (score_function (Imp_Experiment ''identity'' 2 1)) = Inr M \<and>
       n_rows M = 2 \<and> n_cols M = 2 \<and>
       mat_at M 0 0 = 1 / 10 \<and> mat_at M 1 0 = 0 \<and> mat_at M 0 1 = 0 \<and> mat_at M 1 1 = 1 / 37"
proof -
  have rows: "n_rows (col_vec [3, 6]) = 2" by (simp add: col_vec_def)
  from pxdim_rate_diagonal
    [where score_func = "score_function (Imp_Experiment ''identity'' 2 1)"
       and theta = "col_vec [0, 0]" and d = "\<lparr>data_x = row_vec [1, 2], data_y = 3\<rparr>"
       and t = 0, OF score_example rows]
  obtain P M where pre: "\<forall>i<2. \<forall>j<2. mat_at P i j =
        (if i = j then 1 + (\<Sum>k\<leftarrow>[0..<n_cols (col_vec [3, 6])].
                              (mat_at (col_vec [3, 6]) i k)\<^sup>2) else 0)"
    and M: "Imp_Pxdim_Learn_Rate_learning_rate (col_vec [0, 0])
          \<lparr>data_x = row_vec [1, 2], data_y = 3\<rparr> 0 2
          (score_function (Imp_Experiment ''identity'' 2 1)) = Inr M" "n_rows M = 2" "n_cols M = 2"
    and off: "\<forall>i<2. \<forall>j<2. i \<noteq> j \<longrightarrow> mat_at M i j = 0"
    and dia: "\<forall>i<2. (\<bar>mat_at P i i\<bar> > 1 / 10 ^ 8 \<longrightarrow> mat_at M i i = 1 / mat_at P i i) \<and>
            (\<bar>mat_at P i i\<bar> \<le> 1 / 10 ^ 8 \<longrightarrow> mat_at M i i = mat_at P i i)"
    by blast
  have "mat_at M 1 0 = 0" "mat_at M 0 1 = 0" using off by simp_all
  moreover have "mat_at P 0 0 = 10" "mat_at P 1 1 = 37"
    using pre [rule_format, of 0 0] pre [rule_format, of 1 1]
    by (simp_all add: col_vec_def mat_at_def)
  then have "mat_at M 0 0 = 1 / 10" "mat_at M 1 1 = 1 / 37"
    using dia [rule_format, of 0] dia [rule_format, of 1] by simp_all
  ultimately show ?thesis using M by blast
qed

section \<open>Deviances\<close>

lemma log_quot_pos: "0 < a \<Longrightarrow> 0 < b \<Longrightarrow> log_quot a b = Some (ln (a / b))"
proof -
  assume "0 < a" "0 < b"
  then have "0 < a / b" by simp
  then have "\<not> a / b \<le> 0" by linarith
  then show ?thesis using \<open>0 < b\<close> unfolding log_quot_def by simp
qed

lemma y_log_y_same: "y_log_y v v = Some 0"
  by (simp add: y_log_y_def log_quot_def)

lemma gaussian_perfect:
  assumes "n_cols y = 1" "n_rows wt = n_rows y" "n_cols wt = 1"
  shows "Imp_Gaussian_deviance y y wt = Inr 0"
proof -
  have "sum_list (map2 (*) (mem wt)
          (map2 (*) (map2 (-) (mem y) (mem y)) (map2 (-) (mem y) (mem y)))) = 0"
    by (rule sum_list_all_zero) (auto simp: in_set_zip)
  then show ?thesis
    using assms
    by (simp add: Imp_Gaussian_deviance_def mat_minus_def schur_def same_size_def to_vec_def
        sum_vec_def)
qed

text \<open>
  What the Poisson deviance returns on column vectors of \<open>n\<close> rows, when \<open>mu\<close> is
  positive wherever \<open>y\<close> is: an element with \<open>y \<le> 0\<close> keeps \<open>mu * wt\<close>.
\<close>

lemma poisson_core:
  assumes "n_cols y = 1" "n_cols mu = 1" "n_cols wt = 1"
    and "n_rows y = n" "n_rows mu = n" "n_rows wt = n"
    and "wf_mat mu" "wf_mat wt"
    and fin: "\<And>i. i < n \<Longrightarrow> 0 < mem y ! i \<Longrightarrow> 0 < mem mu ! i"
  shows "Imp_Poisson_deviance y mu wt =
     Inr (\<Sum>i\<leftarrow>[0..<n]. 2 * (if 0 < mem y ! i
                           then mem wt ! i * (mem y ! i * ln (mem y ! i / mem mu ! i)
                                               - (mem y ! i - mem mu ! i))
                           else mem mu ! i * mem wt ! i))"
proof -
  let ?c = "\<lambda>i. mem wt ! i * (mem y ! i * ln (mem y ! i / mem mu ! i) - (mem y ! i - mem mu ! i))"
  let ?r0 = "mu\<lparr>mem := map2 (*) (mem mu) (mem wt)\<rparr>"
  let ?body = "\<lambda>i (r, fin).
                        case elem y i of
                          Inl err \<Rightarrow> Inl err
                        | Inr yi \<Rightarrow>
                           if yi > 0
                           then (case elem wt i of
                                   Inl err \<Rightarrow> Inl err
                                 | Inr wi \<Rightarrow>
                                    (case elem mu i of
                                       Inl err \<Rightarrow> Inl err
                                     | Inr mi \<Rightarrow>
                                        (case log_quot yi mi of
                                           None \<Rightarrow> Inr (r, False)
                                         | Some l \<Rightarrow>
                                            (case set_elem r i (wi * (yi * l - (yi - mi))) of
                                               Inl err \<Rightarrow> Inl err
                                             | Inr r' \<Rightarrow> Inr (r', fin)))))
                           else Inr (r, fin)"
  let ?I = "\<lambda>k (s :: mat \<times> bool). snd s \<and>
      n_rows (fst s) = n \<and> n_cols (fst s) = 1 \<and> length (mem (fst s)) = n \<and>
      (\<forall>i<n. mem (fst s) ! i =
         (if i < k \<and> 0 < mem y ! i then ?c i else mem mu ! i * mem wt ! i))"
  have len: "length (mem mu) = n" "length (mem wt) = n"
    using assms by (simp_all add: wf_mat_def)
  have start: "schur mu wt = Inr ?r0" "to_vec ?r0 = Inr ?r0" "n_elem ?r0 = n"
    using assms by (simp_all add: schur_def same_size_def to_vec_def n_elem_def)
  have "\<exists>s. for_loop 0 n ?body (?r0, True) = Inr s \<and> ?I n s"
  proof (rule for_loop_inv [where I = ?I])
    show "?I 0 (?r0, True)" using assms len by simp
    show "0 \<le> n" by simp
  next
    fix k and s :: "mat \<times> bool" assume k: "k < n" and inv: "?I k s"
    obtain r where s: "s = (r, True)" using inv by (cases s) simp
    show "\<exists>s'. ?body k s = Inr s' \<and> ?I (Suc k) s'"
    proof (cases "0 < mem y ! k")
      case True
      then have "?body k s = Inr (r\<lparr>mem := (mem r)[k := ?c k]\<rparr>, True)"
        using k inv s assms(1-6) fin [OF k True]
        by (simp add: elem_Inr set_elem_Inr log_quot_pos)
      moreover have "?I (Suc k) (r\<lparr>mem := (mem r)[k := ?c k]\<rparr>, True)"
        using k inv s True by (auto simp: nth_list_update less_Suc_eq)
      ultimately show ?thesis by blast
    next
      case False
      then have "?body k s = Inr s" using k s assms(1-6) by (simp add: elem_Inr)
      moreover have "?I (Suc k) s" using inv False by (auto simp: less_Suc_eq)
      ultimately show ?thesis by blast
    qed
  qed
  then obtain s where s: "for_loop 0 n ?body (?r0, True) = Inr s" "snd s"
    "length (mem (fst s)) = n"
    "\<forall>i<n. mem (fst s) ! i = (if 0 < mem y ! i then ?c i else mem mu ! i * mem wt ! i)"
    by auto
  then obtain r where r: "for_loop 0 n ?body (?r0, True) = Inr (r, True)" "length (mem r) = n"
    "\<forall>i<n. mem r ! i = (if 0 < mem y ! i then ?c i else mem mu ! i * mem wt ! i)"
    by (cases s) simp
  have "sum_vec (scalar_times_mat 2 r) = (\<Sum>i\<leftarrow>[0..<n]. 2 * mem r ! i)"
    using sum_list_by_index [of "\<lambda>v. 2 * v" "mem r"] r(2)
    by (simp add: sum_vec_def scalar_times_mat_def)
  also have "\<dots> = (\<Sum>i\<leftarrow>[0..<n]. 2 * (if 0 < mem y ! i then ?c i else mem mu ! i * mem wt ! i))"
    using r(3) by (intro arg_cong [where f = sum_list] map_cong) simp_all
  finally show ?thesis
    using start r(1) by (simp add: Imp_Poisson_deviance_def)
qed

lemma poisson_perfect:
  assumes "n_cols y = 1" "n_rows wt = n_rows y" "n_cols wt = 1" "wf_mat y" "wf_mat wt"
    and nonneg: "\<forall>v\<in>set (mem y). 0 \<le> v"
  shows "Imp_Poisson_deviance y y wt = Inr 0"
proof -
  have len: "length (mem y) = n_rows y" using assms by (simp add: wf_mat_def)
  have "Imp_Poisson_deviance y y wt =
     Inr (\<Sum>i\<leftarrow>[0..<n_rows y]. 2 * (if 0 < mem y ! i
                           then mem wt ! i * (mem y ! i * ln (mem y ! i / mem y ! i)
                                               - (mem y ! i - mem y ! i))
                           else mem y ! i * mem wt ! i))"
    using assms by (intro poisson_core) simp_all
  moreover have "(if 0 < mem y ! i
                           then mem wt ! i * (mem y ! i * ln (mem y ! i / mem y ! i)
                                               - (mem y ! i - mem y ! i))
                           else mem y ! i * mem wt ! i) = 0" if "i < n_rows y" for i
  proof -
    have "0 \<le> mem y ! i" using nonneg that len by simp
    then show ?thesis by (cases "mem y ! i = 0") simp_all
  qed
  then have "(\<Sum>i\<leftarrow>[0..<n_rows y]. 2 * (if 0 < mem y ! i
                           then mem wt ! i * (mem y ! i * ln (mem y ! i / mem y ! i)
                                               - (mem y ! i - mem y ! i))
                           else mem y ! i * mem wt ! i)) = 0"
    by (intro sum_list_all_zero) auto
  ultimately show ?thesis by simp
qed

text \<open>
  The Binomial loop at a perfect fit, from any content of the fresh vector: every element
  is overwritten with zero.
\<close>

lemma binomial_perfect:
  assumes "n_cols y = 1" "n_rows wt = n_rows y" "n_cols wt = 1"
  shows "Imp_Binomial_deviance y y wt = Inr 0"
proof -
  let ?n = "n_rows y"
  let ?body = "\<lambda>i (r, fin).
                case elem wt i of
                  Inl err \<Rightarrow> Inl err
                | Inr wi \<Rightarrow>
                   (case elem y i of
                      Inl err \<Rightarrow> Inl err
                    | Inr yi \<Rightarrow>
                       (case elem y i of
                          Inl err \<Rightarrow> Inl err
                        | Inr mi \<Rightarrow>
                           (case y_log_y yi mi of
                              None \<Rightarrow> Inr (r, False)
                            | Some a \<Rightarrow>
                               (case y_log_y (1 - yi) (1 - mi) of
                                  None \<Rightarrow> Inr (r, False)
                                | Some b \<Rightarrow>
                                   (case set_elem r i (2 * wi * (a + b)) of
                                      Inl err \<Rightarrow> Inl err
                                    | Inr r' \<Rightarrow> Inr (r', fin))))))"
  let ?I = "\<lambda>k (s :: mat \<times> bool). snd s \<and>
      n_rows (fst s) = ?n \<and> n_cols (fst s) = 1 \<and> length (mem (fst s)) = ?n \<and>
      (\<forall>i<k. mem (fst s) ! i = 0)"
  have loop: "\<exists>s. for_loop 0 ?n ?body (r0, True) = Inr s \<and> ?I ?n s"
    if "n_rows r0 = ?n" "n_cols r0 = 1" "length (mem r0) = ?n" for r0 :: mat
  proof (rule for_loop_inv [where I = ?I])
    show "?I 0 (r0, True)" using that by simp
    show "0 \<le> ?n" by simp
  next
    fix k and s :: "mat \<times> bool" assume k: "k < ?n" and inv: "?I k s"
    obtain r where s: "s = (r, True)" using inv by (cases s) simp
    have "?body k s = Inr (r\<lparr>mem := (mem r)[k := 0]\<rparr>, True)"
      using k inv s assms by (simp add: elem_Inr set_elem_Inr y_log_y_same)
    moreover have "?I (Suc k) (r\<lparr>mem := (mem r)[k := 0]\<rparr>, True)"
      using k inv s by (auto simp: nth_list_update less_Suc_eq)
    ultimately show "\<exists>s'. ?body k s = Inr s' \<and> ?I (Suc k) s'" by blast
  qed
  have "n_elem y = ?n" using assms(1) by (simp add: n_elem_def)
  moreover have "n_elem (new_vec ?n) = ?n" by (simp add: n_elem_def new_vec_def)
  moreover obtain r where r: "for_loop 0 ?n ?body (new_vec ?n, True) = Inr (r, True)"
    "length (mem r) = ?n" "\<forall>i<?n. mem r ! i = 0"
  proof -
    from loop [of "new_vec ?n"] obtain s where
      "for_loop 0 ?n ?body (new_vec ?n, True) = Inr s" "snd s" "length (mem (fst s)) = ?n"
      "\<forall>i<?n. mem (fst s) ! i = 0"
      by (auto simp: new_vec_def)
    then show ?thesis using that [of "fst s"] by (cases s) simp
  qed
  moreover have "sum_vec r = 0"
    unfolding sum_vec_def using r(2,3) by (intro sum_list_all_zero) (auto simp: in_set_conv_nth)
  ultimately show ?thesis by (simp add: Imp_Binomial_deviance_def Let_def)
qed

text \<open>
  C8. For column vectors \<open>y\<close> and \<open>wt\<close> of the same length, the deviance of a perfect
  fit is zero: the Gaussian one for every \<open>y\<close>, the Poisson one when no entry of \<open>y\<close> is
  negative, the Binomial one when every entry of \<open>y\<close> lies in \<open>(0, 1)\<close>.
\<close>

theorem perfect_fit_deviance:
  assumes "wf_mat y" "wf_mat wt" "n_cols y = 1" "n_cols wt = 1" "n_rows wt = n_rows y"
  shows "Imp_Gaussian_deviance y y wt = Inr 0 \<and>
         ((\<forall>v\<in>set (mem y). 0 \<le> v) \<longrightarrow> Imp_Poisson_deviance y y wt = Inr 0) \<and>
         ((\<forall>v\<in>set (mem y). 0 < v \<and> v < 1) \<longrightarrow> Imp_Binomial_deviance y y wt = Inr 0)"
  using assms gaussian_perfect [of y wt] poisson_perfect [of y wt] binomial_perfect [of y wt]
  by blast

theorem perfect_fit_deviance_witness:
  "Imp_Gaussian_deviance (col_vec [1 / 2, 1 / 4]) (col_vec [1 / 2, 1 / 4]) (col_vec [1, 3]) = Inr 0 \<and>
   Imp_Poisson_deviance (col_vec [1 / 2, 1 / 4]) (col_vec [1 / 2, 1 / 4]) (col_vec [1, 3]) = Inr 0 \<and>
   Imp_Binomial_deviance (col_vec [1 / 2, 1 / 4]) (col_vec [1 / 2, 1 / 4]) (col_vec [1, 3]) = Inr 0"
  using perfect_fit_deviance [of "col_vec [1 / 2, 1 / 4]" "col_vec [1, 3]"]
  by (simp add: col_vec_def wf_mat_def)

text \<open>
  C6, as the code has it. For column vectors \<open>y\<close>, \<open>mu\<close> and \<open>wt\<close> of the same length,
  with \<open>mu\<close> positive wherever \<open>y\<close> is (so that the logarithm is finite): the Poisson
  deviance is the sum of \<open>2 * w * (y * log (y / \<mu>) - (y - \<mu>))\<close> over the observations
  with \<open>y > 0\<close> and of \<open>2 * w * \<mu>\<close> over those with \<open>y \<le> 0\<close>; when no entry of \<open>y\<close> is
  negative, this is the sum that the specification writes.
\<close>

theorem poisson_deviance_value:
  assumes "wf_mat y" "wf_mat mu" "wf_mat wt"
    and "n_cols y = 1" "n_cols mu = 1" "n_cols wt = 1"
    and "n_rows mu = n_rows y" "n_rows wt = n_rows y"
    and "\<forall>i<n_rows y. 0 < mem y ! i \<longrightarrow> 0 < mem mu ! i"
  shows "Imp_Poisson_deviance y mu wt =
           Inr (\<Sum>i\<leftarrow>[0..<n_rows y].
                  2 * mem wt ! i *
                    (if 0 < mem y ! i
                     then mem y ! i * ln (mem y ! i / mem mu ! i) - (mem y ! i - mem mu ! i)
                     else mem mu ! i)) \<and>
         ((\<forall>v\<in>set (mem y). 0 \<le> v) \<longrightarrow>
            Imp_Poisson_deviance y mu wt = Inr (spec_poisson_deviance y mu wt))"
proof -
  let ?n = "n_rows y"
  have len: "length (mem y) = ?n" using assms by (simp add: wf_mat_def)
  have core: "Imp_Poisson_deviance y mu wt =
     Inr (\<Sum>i\<leftarrow>[0..<?n]. 2 * (if 0 < mem y ! i
                           then mem wt ! i * (mem y ! i * ln (mem y ! i / mem mu ! i)
                                               - (mem y ! i - mem mu ! i))
                           else mem mu ! i * mem wt ! i))"
    using assms by (intro poisson_core) simp_all
  have a: "(\<Sum>i\<leftarrow>[0..<?n]. 2 * (if 0 < mem y ! i
                           then mem wt ! i * (mem y ! i * ln (mem y ! i / mem mu ! i)
                                               - (mem y ! i - mem mu ! i))
                           else mem mu ! i * mem wt ! i))
      = (\<Sum>i\<leftarrow>[0..<?n].
                  2 * mem wt ! i *
                    (if 0 < mem y ! i
                     then mem y ! i * ln (mem y ! i / mem mu ! i) - (mem y ! i - mem mu ! i)
                     else mem mu ! i))"
    by (intro arg_cong [where f = sum_list] map_cong) simp_all
  have b: "(\<Sum>i\<leftarrow>[0..<?n]. 2 * (if 0 < mem y ! i
                           then mem wt ! i * (mem y ! i * ln (mem y ! i / mem mu ! i)
                                               - (mem y ! i - mem mu ! i))
                           else mem mu ! i * mem wt ! i))
      = spec_poisson_deviance y mu wt" if nonneg: "\<forall>v\<in>set (mem y). 0 \<le> v"
  proof -
    have "2 * (if 0 < mem y ! i
               then mem wt ! i * (mem y ! i * ln (mem y ! i / mem mu ! i)
                                   - (mem y ! i - mem mu ! i))
               else mem mu ! i * mem wt ! i)
        = 2 * mem wt ! i *
          ((if mem y ! i \<le> 0 then 0 else mem y ! i * ln (mem y ! i / mem mu ! i))
           - (mem y ! i - mem mu ! i))" if "i < ?n" for i
    proof -
      have "0 \<le> mem y ! i" using nonneg that len by simp
      then show ?thesis by (cases "mem y ! i = 0") simp_all
    qed
    then show ?thesis
      unfolding spec_poisson_deviance_def using assms(4)
      by (intro arg_cong [where f = sum_list] map_cong) (simp_all add: n_elem_def)
  qed
  show ?thesis using core a b by simp
qed

theorem poisson_deviance_value_witness:
  "Imp_Poisson_deviance (col_vec [2, 0]) (col_vec [1, 3]) (col_vec [1, 1 / 2])
     = Inr (spec_poisson_deviance (col_vec [2, 0]) (col_vec [1, 3]) (col_vec [1, 1 / 2])) \<and>
   spec_poisson_deviance (col_vec [2, 0]) (col_vec [1, 3]) (col_vec [1, 1 / 2])
     = 2 * (2 * ln 2 - 1) + 3"
proof -
  let ?y = "col_vec [2, 0]" and ?mu = "col_vec [1, 3]" and ?wt = "col_vec [1, 1 / 2]"
  have h: "wf_mat ?y" "wf_mat ?mu" "wf_mat ?wt" "n_cols ?y = 1" "n_cols ?mu = 1" "n_cols ?wt = 1"
    "n_rows ?mu = n_rows ?y" "n_rows ?wt = n_rows ?y"
    "\<forall>i<n_rows ?y. 0 < mem ?y ! i \<longrightarrow> 0 < mem ?mu ! i"
    by (simp_all add: col_vec_def wf_mat_def less_Suc_eq numeral_2_eq_2)
  have nn: "\<forall>v\<in>set (mem ?y). 0 \<le> v" by (simp add: col_vec_def)
  from poisson_deviance_value [OF h] nn
  have "Imp_Poisson_deviance ?y ?mu ?wt = Inr (spec_poisson_deviance ?y ?mu ?wt)"
    by blast
  moreover have "spec_poisson_deviance ?y ?mu ?wt = 2 * (2 * ln 2 - 1) + 3"
    by (simp add: spec_poisson_deviance_def col_vec_def n_elem_def upt_rec)
  ultimately show ?thesis by blast
qed

text \<open>
  C6, as it is stated, fails at a negative response: for \<open>y = -1\<close>, \<open>\<mu> = 1\<close> and \<open>w = 1\<close>
  the code returns \<open>2 * \<mu> * w = 2\<close>, and the stated sum is \<open>2 * (0 - (-1 - 1)) = 4\<close>.
\<close>

theorem poisson_deviance_counterexample:
  "Imp_Poisson_deviance (col_vec [- 1]) (col_vec [1]) (col_vec [1]) = Inr 2 \<and>
   spec_poisson_deviance (col_vec [- 1]) (col_vec [1]) (col_vec [1]) = 4"
  by (simp add: Imp_Poisson_deviance_def spec_poisson_deviance_def col_vec_def schur_def
      same_size_def to_vec_def n_elem_def for_loop.simps elem_def sum_vec_def
      scalar_times_mat_def)

section \<open>The diagonal schedule beyond the reals\<close>

lemma DBL_MAX_ge: "1 \<le> DBL_MAX"
  by (simp add: DBL_MAX_def)

lemma DBL_MAX_less: "DBL_MAX < 2 ^ 1024"
proof -
  have "DBL_MAX = 2 ^ 1024 - 2 ^ 971"
    unfolding DBL_MAX_def by (simp add: algebra_simps flip: power_add)
  then show ?thesis by simp
qed

lemma to_dbl_Fin: "\<bar>r\<bar> \<le> DBL_MAX \<Longrightarrow> to_dbl r = Fin r"
  by (auto simp: to_dbl_def)

lemma dmat_gen_sel [simp]:
  "d_rows (dmat_gen r c f) = r" "d_cols (dmat_gen r c f) = c"
  "length (d_mem (dmat_gen r c f)) = r * c"
  by (simp_all add: dmat_gen_def)

lemma wf_dmat_gen [simp]: "wf_dmat (dmat_gen r c f)"
  by (simp add: wf_dmat_def)

lemma dmat_at_gen [simp]: "i < r \<Longrightarrow> j < c \<Longrightarrow> dmat_at (dmat_gen r c f) i j = f i j"
  using idx_bound [of i r j c] by (simp add: dmat_at_def dmat_gen_def)

lemma dmat_at_dset_at:
  assumes "wf_dmat A" "i < d_rows A" "j < d_cols A" "i' < d_rows A" "j' < d_cols A"
  shows "dmat_at (dset_at A i j v) i' j' = (if i' = i \<and> j' = j then v else dmat_at A i' j')"
  using assms idx_bound [of i "d_rows A" j "d_cols A"] idx_inj [of i "d_rows A" i' j j']
  by (auto simp: dmat_at_def dset_at_def wf_dmat_def)

lemma dset_at_sel [simp]:
  "d_rows (dset_at A i j v) = d_rows A" "d_cols (dset_at A i j v) = d_cols A"
  "wf_dmat (dset_at A i j v) = wf_dmat A"
  by (simp_all add: dset_at_def wf_dmat_def)

lemma dmat_plus_Inr:
  assumes "wf_dmat A" "wf_dmat B" "d_rows B = d_rows A" "d_cols B = d_cols A"
  shows "\<exists>C. dmat_plus A B = Inr C \<and> d_rows C = d_rows A \<and> d_cols C = d_cols A \<and> wf_dmat C \<and>
     (\<forall>i<d_rows A. \<forall>j<d_cols A. dmat_at C i j = dbl_plus (dmat_at A i j) (dmat_at B i j))"
proof -
  have "dmat_at (A\<lparr>d_mem := map2 dbl_plus (d_mem A) (d_mem B)\<rparr>) i j
      = dbl_plus (dmat_at A i j) (dmat_at B i j)"
    if "i < d_rows A" "j < d_cols A" for i j
    using that assms idx_bound [of i "d_rows A" j "d_cols A"]
    by (simp add: dmat_at_def wf_dmat_def)
  then show ?thesis using assms by (simp add: dmat_plus_def wf_dmat_def)
qed

lemma ddiagmat_sq:
  assumes "d_rows A = n" "d_cols A = n" "wf_dmat A"
  shows "d_rows (ddiagmat A) = n \<and> d_cols (ddiagmat A) = n \<and> wf_dmat (ddiagmat A) \<and>
     (\<forall>i<n. \<forall>j<n. dmat_at (ddiagmat A) i j = (if i = j then dmat_at A i i else Fin 0))"
proof (cases "n = 1")
  case True
  have "dmat_at A 0 0 = d_mem A ! 0" by (simp add: dmat_at_def)
  then show ?thesis using True assms by (simp add: ddiagmat_def)
next
  case False
  then show ?thesis using assms by (simp add: ddiagmat_def)
qed

lemma dgram_diag:
  "\<exists>B. dmat_times Gi (dtrans_mat Gi) = Inr B \<and> d_rows B = d_rows Gi \<and> d_cols B = d_rows Gi \<and>
     wf_dmat B \<and>
     (\<forall>i<d_rows Gi. dmat_at B i i =
        foldl dbl_plus (Fin 0)
          (map (\<lambda>k. dbl_times (dmat_at Gi i k) (dmat_at Gi i k)) [0..<d_cols Gi]))"
proof -
  have "foldl dbl_plus (Fin 0)
          (map (\<lambda>k. dbl_times (dmat_at Gi i k) (dmat_at (dtrans_mat Gi) k i)) [0..<d_cols Gi])
      = foldl dbl_plus (Fin 0)
          (map (\<lambda>k. dbl_times (dmat_at Gi i k) (dmat_at Gi i k)) [0..<d_cols Gi])"
    if "i < d_rows Gi" for i
    using that
    by (intro arg_cong [where f = "foldl dbl_plus (Fin 0)"] map_cong)
      (simp_all add: dtrans_mat_def)
  moreover have "d_rows (dtrans_mat Gi) = d_cols Gi" "d_cols (dtrans_mat Gi) = d_rows Gi"
    by (simp_all add: dtrans_mat_def)
  ultimately show ?thesis by (simp add: dmat_times_def)
qed

lemma pxdim_dbl_loop:
  assumes "wf_dmat P" "d_rows P = p" "d_cols P = p"
  shows "\<exists>M. for_loop 0 p
           (\<lambda>i Idiag. Inr (if dbl_greater (dbl_abs (dmat_at Idiag i i)) (Fin (1 / 10 ^ 8))
                            then dset_at Idiag i i (dbl_divide (Fin 1) (dmat_at Idiag i i))
                            else Idiag)) P = Inr M \<and>
      d_rows M = p \<and> d_cols M = p \<and> wf_dmat M \<and>
      (\<forall>i<p. \<forall>j<p. dmat_at M i j =
          (if i = j \<and> dbl_greater (dbl_abs (dmat_at P i i)) (Fin (1 / 10 ^ 8))
           then dbl_divide (Fin 1) (dmat_at P i i) else dmat_at P i j))"
proof -
  let ?I = "\<lambda>k M. d_rows M = p \<and> d_cols M = p \<and> wf_dmat M \<and>
      (\<forall>i<p. \<forall>j<p. dmat_at M i j =
          (if i = j \<and> i < k \<and> dbl_greater (dbl_abs (dmat_at P i i)) (Fin (1 / 10 ^ 8))
           then dbl_divide (Fin 1) (dmat_at P i i) else dmat_at P i j))"
  have "\<exists>M. for_loop 0 p
           (\<lambda>i Idiag. Inr (if dbl_greater (dbl_abs (dmat_at Idiag i i)) (Fin (1 / 10 ^ 8))
                            then dset_at Idiag i i (dbl_divide (Fin 1) (dmat_at Idiag i i))
                            else Idiag)) P = Inr M \<and> ?I p M"
  proof (rule for_loop_inv [where I = ?I])
    show "?I 0 P" using assms by simp
    show "0 \<le> p" by simp
  next
    fix k M assume k: "k < p" and inv: "?I k M"
    then have kk: "dmat_at M k k = dmat_at P k k" by simp
    show "\<exists>s'. Inr (if dbl_greater (dbl_abs (dmat_at M k k)) (Fin (1 / 10 ^ 8))
                     then dset_at M k k (dbl_divide (Fin 1) (dmat_at M k k)) else M) = Inr s' \<and>
               ?I (Suc k) s'"
    proof (cases "dbl_greater (dbl_abs (dmat_at P k k)) (Fin (1 / 10 ^ 8))")
      case True
      have "dmat_at (dset_at M k k (dbl_divide (Fin 1) (dmat_at P k k))) i j =
          (if i = j \<and> i < Suc k \<and> dbl_greater (dbl_abs (dmat_at P i i)) (Fin (1 / 10 ^ 8))
           then dbl_divide (Fin 1) (dmat_at P i i) else dmat_at P i j)"
        if "i < p" "j < p" for i j
        using that k inv True by (auto simp: dmat_at_dset_at less_Suc_eq)
      then show ?thesis using True kk inv by simp
    next
      case False
      then show ?thesis using kk inv by (auto simp: less_Suc_eq)
    qed
  qed
  then show ?thesis by auto
qed

text \<open>
  What the schedule does on doubles when the score function returns a column vector
  \<open>Gi\<close> of \<open>p\<close> rows: \<open>P\<close> is the matrix that the loop starts from, \<open>M\<close> the matrix that is
  returned.
\<close>

lemma pxdim_dbl_core:
  assumes "score_func theta d = Inr Gi" "d_rows Gi = p" "d_cols Gi = 1"
  shows "\<exists>B P M. dmat_times Gi (dtrans_mat Gi) = Inr B \<and>
     dmat_plus (deye p p) (ddiagmat B) = Inr P \<and>
     Imp_Pxdim_Learn_Rate_learning_rate_dbl theta d t p score_func = Inr M \<and>
     (\<forall>i<p. dmat_at P i i =
        dbl_plus (Fin 1) (dbl_plus (Fin 0) (dbl_times (dmat_at Gi i 0) (dmat_at Gi i 0))) \<and>
        dmat_at M i i =
          (if dbl_greater (dbl_abs (dmat_at P i i)) (Fin (1 / 10 ^ 8))
           then dbl_divide (Fin 1) (dmat_at P i i) else dmat_at P i i))"
proof -
  obtain B where B: "dmat_times Gi (dtrans_mat Gi) = Inr B" "d_rows B = p" "d_cols B = p"
    "wf_dmat B"
    "\<forall>i<p. dmat_at B i i =
        foldl dbl_plus (Fin 0)
          (map (\<lambda>k. dbl_times (dmat_at Gi i k) (dmat_at Gi i k)) [0..<d_cols Gi])"
    using dgram_diag [of Gi] assms(2) by auto
  note D = ddiagmat_sq [OF B(2,3,4)]
  obtain P where P: "dmat_plus (deye p p) (ddiagmat B) = Inr P" "d_rows P = p" "d_cols P = p"
    "wf_dmat P"
    "\<forall>i<p. \<forall>j<p. dmat_at P i j = dbl_plus (dmat_at (deye p p) i j) (dmat_at (ddiagmat B) i j)"
    using dmat_plus_Inr [of "deye p p" "ddiagmat B"] D by (auto simp: deye_def)
  have Pii: "\<forall>i<p. dmat_at P i i =
        dbl_plus (Fin 1) (dbl_plus (Fin 0) (dbl_times (dmat_at Gi i 0) (dmat_at Gi i 0)))"
    using P(5) D B(5) assms(3) by (simp add: deye_def)
  obtain M where M: "for_loop 0 p
           (\<lambda>i Idiag. Inr (if dbl_greater (dbl_abs (dmat_at Idiag i i)) (Fin (1 / 10 ^ 8))
                            then dset_at Idiag i i (dbl_divide (Fin 1) (dmat_at Idiag i i))
                            else Idiag)) P = Inr M"
      "\<forall>i<p. \<forall>j<p. dmat_at M i j =
          (if i = j \<and> dbl_greater (dbl_abs (dmat_at P i i)) (Fin (1 / 10 ^ 8))
           then dbl_divide (Fin 1) (dmat_at P i i) else dmat_at P i j)"
    using pxdim_dbl_loop [OF P(4,2,3)] by blast
  have "Imp_Pxdim_Learn_Rate_learning_rate_dbl theta d t p score_func = Inr M"
    using assms(1) B(1) P(1) M(1) by (simp add: Imp_Pxdim_Learn_Rate_learning_rate_dbl_def)
  moreover have "\<forall>i<p. dmat_at M i i =
          (if dbl_greater (dbl_abs (dmat_at P i i)) (Fin (1 / 10 ^ 8))
           then dbl_divide (Fin 1) (dmat_at P i i) else dmat_at P i i)"
    using M(2) by simp
  ultimately show ?thesis using B(1) P(1) Pii by blast
qed

lemma recip_unit:
  fixes g :: real
  shows "0 < 1 + g\<^sup>2" "0 < 1 / (1 + g\<^sup>2)" "1 / (1 + g\<^sup>2) \<le> 1"
proof -
  show pos: "0 < 1 + g\<^sup>2" by (rule add_pos_nonneg) simp_all
  then show "0 < 1 / (1 + g\<^sup>2)" by simp
  have "1 \<le> 1 + g\<^sup>2" by simp
  then show "1 / (1 + g\<^sup>2) \<le> 1" using pos by (simp only: divide_le_eq_1_pos)
qed

lemma dbl_entry_finite:
  assumes "1 + g\<^sup>2 \<le> DBL_MAX"
  shows "dbl_plus (Fin 1) (dbl_plus (Fin 0) (dbl_times (Fin g) (Fin g))) = Fin (1 + g\<^sup>2)"
    and "dbl_greater (dbl_abs (Fin (1 + g\<^sup>2))) (Fin (1 / 10 ^ 8))"
    and "dbl_divide (Fin 1) (Fin (1 + g\<^sup>2)) = Fin (1 / (1 + g\<^sup>2))"
proof -
  have sq: "0 \<le> g\<^sup>2" "g\<^sup>2 \<le> DBL_MAX" using assms by simp_all
  then have "dbl_times (Fin g) (Fin g) = Fin (g\<^sup>2)"
    by (simp add: to_dbl_Fin power2_eq_square)
  moreover have "dbl_plus (Fin 0) (Fin (g\<^sup>2)) = Fin (g\<^sup>2)"
    using sq by (simp add: to_dbl_Fin)
  moreover have "dbl_plus (Fin 1) (Fin (g\<^sup>2)) = Fin (1 + g\<^sup>2)"
    using sq assms by (simp add: to_dbl_Fin)
  ultimately show "dbl_plus (Fin 1) (dbl_plus (Fin 0) (dbl_times (Fin g) (Fin g))) = Fin (1 + g\<^sup>2)"
    by simp
  have ge: "1 \<le> 1 + g\<^sup>2" by simp
  have "(1 / 10 ^ 8 :: real) < 1" by simp
  moreover have "1 + g\<^sup>2 \<le> \<bar>1 + g\<^sup>2\<bar>" by simp
  moreover note ge
  ultimately have "1 / 10 ^ 8 < \<bar>1 + g\<^sup>2\<bar>" by (meson less_le_trans order_trans)
  then show "dbl_greater (dbl_abs (Fin (1 + g\<^sup>2))) (Fin (1 / 10 ^ 8))" by simp
  have "\<bar>1 / (1 + g\<^sup>2)\<bar> \<le> DBL_MAX"
    using recip_unit(2,3) [of g] DBL_MAX_ge by linarith
  then have "to_dbl (1 / (1 + g\<^sup>2)) = Fin (1 / (1 + g\<^sup>2))" by (rule to_dbl_Fin)
  moreover have "1 + g\<^sup>2 \<noteq> 0" using recip_unit(1) [of g] by linarith
  ultimately show "dbl_divide (Fin 1) (Fin (1 + g\<^sup>2)) = Fin (1 / (1 + g\<^sup>2))" by simp
qed

lemma dbl_entry_overflow:
  assumes "2 ^ 1024 \<le> g\<^sup>2"
  shows "dbl_plus (Fin 1) (dbl_plus (Fin 0) (dbl_times (Fin g) (Fin g))) = PInf"
proof -
  have "DBL_MAX < g * g" using assms DBL_MAX_less by (simp add: power2_eq_square)
  then have "dbl_times (Fin g) (Fin g) = PInf" by (simp add: to_dbl_def)
  then show ?thesis by simp
qed

lemma dbl_entry_special:
  "dbl_plus (Fin 1) (dbl_plus (Fin 0) (dbl_times PInf PInf)) = PInf"
  "dbl_plus (Fin 1) (dbl_plus (Fin 0) (dbl_times NInf NInf)) = PInf"
  "dbl_plus (Fin 1) (dbl_plus (Fin 0) (dbl_times NaN NaN)) = NaN"
  "dbl_greater (dbl_abs PInf) (Fin (1 / 10 ^ 8))"
  "\<not> dbl_greater (dbl_abs NaN) (Fin (1 / 10 ^ 8))"
  "dbl_divide (Fin 1) PInf = Fin 0"
  by simp_all

text \<open>
  C9, as the code has it. Let the score be a column vector \<open>Gi\<close> of \<open>p\<close> doubles,
  \<open>P\<close> the pre-inversion matrix and \<open>M\<close> the matrix returned. For a finite \<open>Gi\<^sub>i\<close> with
  \<open>1 + Gi\<^sub>i\<^sup>2\<close> within the range of the format, the entry \<open>P\<^sub>i\<^sub>i\<close> is \<open>1 + Gi\<^sub>i\<^sup>2\<close>, at least one
  and above the threshold, the loop inverts it, and \<open>M\<^sub>i\<^sub>i = 1 / (1 + Gi\<^sub>i\<^sup>2)\<close> lies in
  \<open>(0, 1]\<close>. When \<open>Gi\<^sub>i\<^sup>2\<close> is \<open>2 ^ 1024\<close> or more, or \<open>Gi\<^sub>i\<close> is infinite, \<open>P\<^sub>i\<^sub>i\<close> is \<open>+inf\<close>, still
  above the threshold, and \<open>M\<^sub>i\<^sub>i\<close> is zero. When \<open>Gi\<^sub>i\<close> is NaN, \<open>P\<^sub>i\<^sub>i\<close> is NaN, the comparison
  with the threshold is false, and the entry passes through: \<open>M\<^sub>i\<^sub>i\<close> is NaN. Between the
  largest double and \<open>2 ^ 1024\<close> rounding decides, and nothing is said.
\<close>

theorem pxdim_rate_range:
  assumes "score_func theta d = Inr Gi" "d_rows Gi = p" "d_cols Gi = 1"
  shows "\<exists>GGt P M. dmat_times Gi (dtrans_mat Gi) = Inr GGt \<and>
     dmat_plus (deye p p) (ddiagmat GGt) = Inr P \<and>
     Imp_Pxdim_Learn_Rate_learning_rate_dbl theta d t p score_func = Inr M \<and>
     (\<forall>i<p.
        (\<forall>g. dmat_at Gi i 0 = Fin g \<and> 1 + g\<^sup>2 \<le> DBL_MAX \<longrightarrow>
           dmat_at P i i = Fin (1 + g\<^sup>2) \<and> 1 \<le> 1 + g\<^sup>2 \<and>
           dbl_greater (dbl_abs (dmat_at P i i)) (Fin (1 / 10 ^ 8)) \<and>
           dmat_at M i i = Fin (1 / (1 + g\<^sup>2)) \<and>
           0 < 1 / (1 + g\<^sup>2) \<and> 1 / (1 + g\<^sup>2) \<le> 1) \<and>
        (\<forall>g. dmat_at Gi i 0 = Fin g \<and> 2 ^ 1024 \<le> g\<^sup>2 \<longrightarrow>
           dmat_at P i i = PInf \<and>
           dbl_greater (dbl_abs (dmat_at P i i)) (Fin (1 / 10 ^ 8)) \<and>
           dmat_at M i i = Fin 0) \<and>
        (dmat_at Gi i 0 = PInf \<or> dmat_at Gi i 0 = NInf \<longrightarrow>
           dmat_at P i i = PInf \<and>
           dbl_greater (dbl_abs (dmat_at P i i)) (Fin (1 / 10 ^ 8)) \<and>
           dmat_at M i i = Fin 0) \<and>
        (dmat_at Gi i 0 = NaN \<longrightarrow>
           dmat_at P i i = NaN \<and>
           \<not> dbl_greater (dbl_abs (dmat_at P i i)) (Fin (1 / 10 ^ 8)) \<and>
           dmat_at M i i = NaN))"
proof -
  from pxdim_dbl_core
    [where score_func = score_func and theta = theta and d = d and t = t, OF assms]
  obtain B P M where c: "dmat_times Gi (dtrans_mat Gi) = Inr B"
    "dmat_plus (deye p p) (ddiagmat B) = Inr P"
    "Imp_Pxdim_Learn_Rate_learning_rate_dbl theta d t p score_func = Inr M"
    and ent: "\<forall>i<p. dmat_at P i i =
        dbl_plus (Fin 1) (dbl_plus (Fin 0) (dbl_times (dmat_at Gi i 0) (dmat_at Gi i 0))) \<and>
        dmat_at M i i =
          (if dbl_greater (dbl_abs (dmat_at P i i)) (Fin (1 / 10 ^ 8))
           then dbl_divide (Fin 1) (dmat_at P i i) else dmat_at P i i)"
    by blast
  have "(\<forall>g. dmat_at Gi i 0 = Fin g \<and> 1 + g\<^sup>2 \<le> DBL_MAX \<longrightarrow>
           dmat_at P i i = Fin (1 + g\<^sup>2) \<and> 1 \<le> 1 + g\<^sup>2 \<and>
           dbl_greater (dbl_abs (dmat_at P i i)) (Fin (1 / 10 ^ 8)) \<and>
           dmat_at M i i = Fin (1 / (1 + g\<^sup>2)) \<and>
           0 < 1 / (1 + g\<^sup>2) \<and> 1 / (1 + g\<^sup>2) \<le> 1) \<and>
        (\<forall>g. dmat_at Gi i 0 = Fin g \<and> 2 ^ 1024 \<le> g\<^sup>2 \<longrightarrow>
           dmat_at P i i = PInf \<and>
           dbl_greater (dbl_abs (dmat_at P i i)) (Fin (1 / 10 ^ 8)) \<and>
           dmat_at M i i = Fin 0) \<and>
        (dmat_at Gi i 0 = PInf \<or> dmat_at Gi i 0 = NInf \<longrightarrow>
           dmat_at P i i = PInf \<and>
           dbl_greater (dbl_abs (dmat_at P i i)) (Fin (1 / 10 ^ 8)) \<and>
           dmat_at M i i = Fin 0) \<and>
        (dmat_at Gi i 0 = NaN \<longrightarrow>
           dmat_at P i i = NaN \<and>
           \<not> dbl_greater (dbl_abs (dmat_at P i i)) (Fin (1 / 10 ^ 8)) \<and>
           dmat_at M i i = NaN)" if i: "i < p" for i
  proof -
    note e = ent [rule_format, OF i]
    have one: "dmat_at P i i = Fin (1 + g\<^sup>2) \<and> 1 \<le> 1 + g\<^sup>2 \<and>
           dbl_greater (dbl_abs (dmat_at P i i)) (Fin (1 / 10 ^ 8)) \<and>
           dmat_at M i i = Fin (1 / (1 + g\<^sup>2)) \<and>
           0 < 1 / (1 + g\<^sup>2) \<and> 1 / (1 + g\<^sup>2) \<le> 1"
      if "dmat_at Gi i 0 = Fin g" "1 + g\<^sup>2 \<le> DBL_MAX" for g
    proof -
      have P: "dmat_at P i i = Fin (1 + g\<^sup>2)"
        unfolding conjunct1 [OF e] that(1) by (rule dbl_entry_finite(1) [OF that(2)])
      have gt: "dbl_greater (dbl_abs (dmat_at P i i)) (Fin (1 / 10 ^ 8))"
        unfolding P by (rule dbl_entry_finite(2) [OF that(2)])
      have "dmat_at M i i = dbl_divide (Fin 1) (dmat_at P i i)"
        using conjunct2 [OF e] by (simp only: gt if_True)
      then have M: "dmat_at M i i = Fin (1 / (1 + g\<^sup>2))"
        unfolding P by (simp only: dbl_entry_finite(3) [OF that(2)])
      have ge: "1 \<le> 1 + g\<^sup>2" by simp
      from P ge gt M recip_unit(2,3) [of g] show ?thesis by blast
    qed
    have two: "dmat_at P i i = PInf \<and>
           dbl_greater (dbl_abs (dmat_at P i i)) (Fin (1 / 10 ^ 8)) \<and> dmat_at M i i = Fin 0"
      if "dmat_at Gi i 0 = Fin g" "2 ^ 1024 \<le> g\<^sup>2" for g
    proof -
      have P: "dmat_at P i i = PInf"
        unfolding conjunct1 [OF e] that(1) by (rule dbl_entry_overflow [OF that(2)])
      then show ?thesis using conjunct2 [OF e] by simp
    qed
    have three: "dmat_at P i i = PInf \<and>
           dbl_greater (dbl_abs (dmat_at P i i)) (Fin (1 / 10 ^ 8)) \<and> dmat_at M i i = Fin 0"
      if "dmat_at Gi i 0 = PInf \<or> dmat_at Gi i 0 = NInf"
    proof -
      have P: "dmat_at P i i = PInf"
        unfolding conjunct1 [OF e] using that by auto
      then show ?thesis using conjunct2 [OF e] by simp
    qed
    have four: "dmat_at P i i = NaN \<and>
           \<not> dbl_greater (dbl_abs (dmat_at P i i)) (Fin (1 / 10 ^ 8)) \<and> dmat_at M i i = NaN"
      if "dmat_at Gi i 0 = NaN"
    proof -
      have P: "dmat_at P i i = NaN"
        unfolding conjunct1 [OF e] that by simp
      then show ?thesis using conjunct2 [OF e] by simp
    qed
    show ?thesis using one two three four by blast
  qed
  then show ?thesis using c by blast
qed

lemma score_large:
  "score_function (Imp_Experiment ''identity'' 1 1) (col_vec [0])
     \<lparr>data_x = row_vec [1], data_y = 2 ^ 700\<rparr> = Inr (col_vec [2 ^ 700])"
proof -
  have "score_function (Imp_Experiment ''identity'' 1 1) (col_vec [0])
     \<lparr>data_x = row_vec [1], data_y = 2 ^ 700\<rparr> =
     Inr (col_vec (map (\<lambda>v. (2 ^ 700 - Imp_Identity_Transfer_transfer
        (\<Sum>k\<leftarrow>[0..<1]. mat_at (row_vec [1]) 0 k * mat_at (col_vec [0]) k 0)) * v)
        (mem (row_vec [1]))))"
    by (rule score_function_eq)
      (simp_all add: Imp_Experiment_def row_vec_def col_vec_def wf_mat_def)
  then show ?thesis
    by (simp add: identity_defs row_vec_def col_vec_def mat_at_def)
qed

lemma large_in_range: "\<bar>2 ^ 700 :: real\<bar> \<le> DBL_MAX"
proof -
  have "(2 ^ 700 :: real) \<le> 2 ^ 971" by (rule power_increasing) simp_all
  also have "\<dots> \<le> DBL_MAX" unfolding DBL_MAX_def by simp
  finally show ?thesis by simp
qed

lemma large_square: "DBL_MAX < 2 ^ 700 * (2 ^ 700 :: real)"
proof -
  have "(2 ^ 1024 :: real) \<le> 2 ^ 1400" by (rule power_increasing) simp_all
  then show ?thesis using DBL_MAX_less by (simp flip: power_add)
qed

text \<open>
  C9, as it is stated, fails where the square of the score overflows. For the identity
  transfer, \<open>theta = [0]\<close>, \<open>x = [1]\<close> and \<open>y = 2 ^ 700\<close> the score is \<open>2 ^ 700\<close>, computed
  without leaving the range of the format; its square is beyond the largest double, so
  the pre-inversion entry is \<open>+inf\<close> and the entry returned is \<open>1. / inf = 0\<close>, which is
  not in \<open>(0, 1]\<close>.
\<close>

theorem pxdim_rate_range_counterexample:
  "score_function (Imp_Experiment ''identity'' 1 1) (col_vec [0])
     \<lparr>data_x = row_vec [1], data_y = 2 ^ 700\<rparr> = Inr (col_vec [2 ^ 700]) \<and>
   Imp_Pxdim_Learn_Rate_learning_rate_dbl (col_vec [0])
     \<lparr>data_x = row_vec [1], data_y = 2 ^ 700\<rparr> 0 1
     (score_function_dbl (Imp_Experiment ''identity'' 1 1))
     = Inr \<lparr>d_rows = 1, d_cols = 1, d_mem = [Fin 0]\<rparr>"
proof -
  have "score_function_dbl (Imp_Experiment ''identity'' 1 1) (col_vec [0])
     \<lparr>data_x = row_vec [1], data_y = 2 ^ 700\<rparr>
     = Inr \<lparr>d_rows = 1, d_cols = 1, d_mem = [Fin (2 ^ 700)]\<rparr>"
  proof -
    have "to_dmat (col_vec [2 ^ 700]) = \<lparr>d_rows = 1, d_cols = 1, d_mem = [Fin (2 ^ 700)]\<rparr>"
      using to_dbl_Fin [OF large_in_range] by (simp add: to_dmat_def col_vec_def)
    then show ?thesis by (simp only: score_function_dbl_def score_large sum.case)
  qed
  moreover have "dbl_times (Fin (2 ^ 700)) (Fin (2 ^ 700)) = PInf"
    using large_square by (simp add: to_dbl_def)
  ultimately have "Imp_Pxdim_Learn_Rate_learning_rate_dbl (col_vec [0])
     \<lparr>data_x = row_vec [1], data_y = 2 ^ 700\<rparr> 0 1
     (score_function_dbl (Imp_Experiment ''identity'' 1 1))
     = Inr \<lparr>d_rows = 1, d_cols = 1, d_mem = [Fin 0]\<rparr>"
    by (simp add: Imp_Pxdim_Learn_Rate_learning_rate_dbl_def deye_def dmat_gen_def
        dmat_times_def dtrans_mat_def dmat_at_def ddiagmat_def dmat_plus_def dset_at_def
        for_loop.simps)
  then show ?thesis using score_large by simp
qed

theorem pxdim_rate_range_witness:
  "(\<exists>M. Imp_Pxdim_Learn_Rate_learning_rate_dbl (col_vec [0, 0])
          \<lparr>data_x = row_vec [1, 2], data_y = 3\<rparr> 7 2
          (score_function_dbl (Imp_Experiment ''identity'' 2 1)) = Inr M \<and>
        dmat_at M 0 0 = Fin (1 / 10) \<and> dmat_at M 1 1 = Fin (1 / 37)) \<and>
   (\<exists>M. Imp_Pxdim_Learn_Rate_learning_rate_dbl () () 0 1
          (\<lambda>theta d. Inr \<lparr>d_rows = 1, d_cols = 1, d_mem = [NaN]\<rparr>) = Inr M \<and>
        dmat_at M 0 0 = NaN)"
proof -
  let ?G = "\<lparr>d_rows = 2, d_cols = 1, d_mem = [Fin 3, Fin 6]\<rparr>"
  have small: "\<bar>3 :: real\<bar> \<le> DBL_MAX" "\<bar>6 :: real\<bar> \<le> DBL_MAX"
    "1 + (3::real)\<^sup>2 \<le> DBL_MAX" "1 + (6::real)\<^sup>2 \<le> DBL_MAX"
    using DBL_MAX_ge by (simp_all add: DBL_MAX_def)
  have "to_dmat (col_vec [3, 6]) = ?G"
    using to_dbl_Fin [OF small(1)] to_dbl_Fin [OF small(2)]
    by (simp add: to_dmat_def col_vec_def)
  then have score: "score_function_dbl (Imp_Experiment ''identity'' 2 1) (col_vec [0, 0])
      \<lparr>data_x = row_vec [1, 2], data_y = 3\<rparr> = Inr ?G"
    by (simp only: score_function_dbl_def score_example sum.case)
  have dims: "d_rows ?G = 2" "d_cols ?G = 1" by simp_all
  from pxdim_rate_range
    [where score_func = "score_function_dbl (Imp_Experiment ''identity'' 2 1)"
       and theta = "col_vec [0, 0]" and d = "\<lparr>data_x = row_vec [1, 2], data_y = 3\<rparr>"
       and t = 7, OF score dims]
  obtain M where M: "Imp_Pxdim_Learn_Rate_learning_rate_dbl (col_vec [0, 0])
          \<lparr>data_x = row_vec [1, 2], data_y = 3\<rparr> 7 2
          (score_function_dbl (Imp_Experiment ''identity'' 2 1)) = Inr M"
    and fin: "\<forall>i<2. \<forall>g. dmat_at ?G i 0 = Fin g \<and> 1 + g\<^sup>2 \<le> DBL_MAX \<longrightarrow>
           dmat_at M i i = Fin (1 / (1 + g\<^sup>2))"
    by blast
  have g0: "dmat_at ?G 0 0 = Fin 3 \<and> 1 + (3::real)\<^sup>2 \<le> DBL_MAX"
    and g1: "dmat_at ?G 1 0 = Fin 6 \<and> 1 + (6::real)\<^sup>2 \<le> DBL_MAX"
    using small(3,4) by (simp_all add: dmat_at_def)
  have "dmat_at M 0 0 = Fin (1 / (1 + 3\<^sup>2))"
    by (rule fin [rule_format, of 0 3, OF _ g0]) simp
  moreover have "dmat_at M 1 1 = Fin (1 / (1 + 6\<^sup>2))"
    by (rule fin [rule_format, of 1 6, OF _ g1]) simp
  ultimately have a: "dmat_at M 0 0 = Fin (1 / 10)" "dmat_at M 1 1 = Fin (1 / 37)"
    by simp_all
  let ?N = "\<lparr>d_rows = 1, d_cols = 1, d_mem = [NaN]\<rparr>"
  have nscore: "(\<lambda>theta d. Inr ?N) () () = Inr ?N" by simp
  have ndims: "d_rows ?N = 1" "d_cols ?N = 1" by simp_all
  from pxdim_rate_range
    [where score_func = "\<lambda>theta d. Inr ?N" and theta = "()" and d = "()" and t = 0,
      OF nscore ndims]
  obtain M' where M': "Imp_Pxdim_Learn_Rate_learning_rate_dbl () () 0 1
          (\<lambda>theta d. Inr ?N) = Inr M'"
    and nan: "\<forall>i<1. dmat_at ?N i 0 = NaN \<longrightarrow> dmat_at M' i i = NaN"
    by blast
  have n0: "dmat_at ?N 0 0 = NaN" by (simp add: dmat_at_def)
  have b: "dmat_at M' 0 0 = NaN"
    by (rule nan [rule_format, of 0, OF _ n0]) simp
  from M a M' b show ?thesis by blast
qed

end
